theory Spec2Isabelle
  imports Complex_Main "HOL-Library.Multiset"
begin

section \<open>Strings\<close>

text \<open>
  The route handler \<^verbatim>\<open>src/app/api/ask/route.ts\<close> works on JavaScript strings. A string is
  modelled as a \<^typ>\<open>string\<close>, one \<^typ>\<open>char\<close> per code unit, and the text is taken to be
  ASCII: \<^verbatim>\<open>toLowerCase\<close> maps \<^verbatim>\<open>A\<close>..\<^verbatim>\<open>Z\<close> to \<^verbatim>\<open>a\<close>..\<^verbatim>\<open>z\<close> (it sets the bit of weight 32)
  and leaves every other code unit alone; \<^verbatim>\<open>trim\<close> strips the ASCII white space
  (codes 9 to 13 and 32) from both ends.
\<close>

definition isUpper :: "char \<Rightarrow> bool" where
  "isUpper c = (65 \<le> (of_char c :: nat) \<and> (of_char c :: nat) \<le> 90)"

fun lowerChar :: "char \<Rightarrow> char" where
  "lowerChar (Char b0 b1 b2 b3 b4 b5 b6 b7) =
     (if isUpper (Char b0 b1 b2 b3 b4 b5 b6 b7) then Char b0 b1 b2 b3 b4 True b6 b7
      else Char b0 b1 b2 b3 b4 b5 b6 b7)"

definition toLowerCase :: "string \<Rightarrow> string" where
  "toLowerCase s = map lowerChar s"

definition isWhiteSpace :: "char \<Rightarrow> bool" where
  "isWhiteSpace c =
     ((9 \<le> (of_char c :: nat) \<and> (of_char c :: nat) \<le> 13) \<or> (of_char c :: nat) = 32)"

definition trim :: "string \<Rightarrow> string" where
  "trim s = rev (dropWhile isWhiteSpace (rev (dropWhile isWhiteSpace s)))"

text \<open>\<^verbatim>\<open>s.startsWith(p)\<close> and \<^verbatim>\<open>s.includes(sub)\<close>: \<open>sub\<close> occurs in \<open>s\<close> as a contiguous run.\<close>

fun startsWith :: "string \<Rightarrow> string \<Rightarrow> bool" where
  "startsWith s [] = True"
| "startsWith [] (p # ps) = False"
| "startsWith (c # cs) (p # ps) = (c = p \<and> startsWith cs ps)"

fun str_includes :: "string \<Rightarrow> string \<Rightarrow> bool" where
  "str_includes [] sub = (sub = [])"
| "str_includes (c # cs) sub = (startsWith (c # cs) sub \<or> str_includes cs sub)"

text \<open>
  JavaScript truthiness of a \<^verbatim>\<open>string | null\<close> value: \<^verbatim>\<open>null\<close>, \<^verbatim>\<open>undefined\<close> and the empty
  string are falsy. Of a \<^verbatim>\<open>boolean | undefined\<close> value: only \<^verbatim>\<open>true\<close> is truthy.
\<close>

definition truthy :: "string option \<Rightarrow> bool" where
  "truthy v = (case v of None \<Rightarrow> False | Some s \<Rightarrow> s \<noteq> [])"

definition truthyBool :: "bool option \<Rightarrow> bool" where
  "truthyBool b = (b = Some True)"

section \<open>Synonym dictionaries\<close>

text \<open>
  A \<^verbatim>\<open>Record<string, string[]>\<close> is read through \<^verbatim>\<open>Object.entries\<close> only, so it is modelled
  as the list of its entries in insertion order.
\<close>

type_synonym synonymsDict = "(string \<times> string list) list"

definition speciesSynonyms :: "string list" where
  "speciesSynonyms = [''tree'', ''trees'', ''plant'', ''plants'', ''vegetation'', ''species'']"

definition ecosystemServiceSynonyms :: synonymsDict where
  "ecosystemServiceSynonyms =
     [(''Medicinal'',
         [''medicine'', ''medicinal'', ''healing'', ''remedy'', ''pharmaceutical'', ''health'']),
      (''Food'',
         [''food'', ''edible'', ''nutrition'', ''eat'', ''eating'', ''consumed'', ''nutritional'']),
      (''Raw Material'',
         [''raw material'', ''material'', ''timber'', ''wood'', ''construction'', ''building'',
          ''fiber'', ''latex'', ''resource''])]"

definition partUsedSynonyms :: synonymsDict where
  "partUsedSynonyms =
     [(''fruit'', [''fruit'', ''fruits'', ''edible fruit'']),
      (''seed'', [''seed'', ''seeds'', ''edible seed'']),
      (''bark'', [''bark'']),
      (''trunk'', [''trunk'', ''wood'', ''timber'']),
      (''leaves'', [''leaf'', ''leaves'', ''edible leaves'']),
      (''root'', [''root'', ''roots'']),
      (''latex'', [''latex'']),
      (''resin'', [''resin'']),
      (''branch'', [''branch'', ''branches'']),
      (''flower'', [''flower'', ''flowers'']),
      (''sap'', [''sap''])]"

section \<open>The synonym normalizer\<close>

text \<open>
  \<^verbatim>\<open>normalizeField(value, synonymsDict)\<close>. The guard \<^verbatim>\<open>if (!value) return null\<close> catches
  \<^verbatim>\<open>null\<close> and the empty string. \<open>normalizeLoop\<close> is the \<^verbatim>\<open>for\<close> loop over the entries: the
  first entry whose label, or one of whose synonyms, lower-cased, equals the trimmed and
  lower-cased value returns its label; when the loop runs out, the value itself is returned.
\<close>

fun normalizeLoop :: "string \<Rightarrow> string \<Rightarrow> synonymsDict \<Rightarrow> string" where
  "normalizeLoop value lowerValue [] = value"
| "normalizeLoop value lowerValue ((canonical, synonyms) # rest) =
     (if toLowerCase canonical = lowerValue then canonical
      else if list_ex (\<lambda>syn. toLowerCase syn = lowerValue) synonyms then canonical
      else normalizeLoop value lowerValue rest)"

definition normalizeField :: "string option \<Rightarrow> synonymsDict \<Rightarrow> string option" where
  "normalizeField value dict =
     (if \<not> truthy value then None
      else Some (normalizeLoop (the value) (toLowerCase (trim (the value))) dict))"

text \<open>
  The contract of the normalizer in the specification's words: an entry of the table
  answers a value when the trimmed, lower-cased value equals its label or one of its
  synonyms, compared without regard to case.
\<close>

definition answers :: "string \<Rightarrow> string \<times> string list \<Rightarrow> bool" where
  "answers v e =
     (toLowerCase (fst e) = toLowerCase (trim v) \<or>
      (\<exists>syn\<in>set (snd e). toLowerCase syn = toLowerCase (trim v)))"

section \<open>Query extraction\<close>

text \<open>
  The \<^verbatim>\<open>Query\<close> interface, the \<^verbatim>\<open>and\<close> object and the parsed answer of the language model.
  The answer is taken to be typed as the handler's declarations say: string-or-null
  fields, a boolean-or-absent \<^verbatim>\<open>only\<close>, an object-or-absent \<^verbatim>\<open>and\<close>. Everything that makes
  the \<^verbatim>\<open>try\<close> block throw (the service, the network, \<^verbatim>\<open>JSON.parse\<close>) is the outcome
  \<open>LlmThrows\<close>.
\<close>

record Query =
  species :: "string option"
  ecosystemService :: "string option"
  partUsed :: "string option"

record AndQuery =
  and_ecosystemService :: "string option"
  and_partUsed :: "string option"

record LlmQuery =
  llm_species :: "string option"
  llm_ecosystemService :: "string option"
  llm_partUsed :: "string option"
  llm_only :: "bool option"
  llm_and :: "AndQuery option"

datatype LlmOutcome = LlmThrows | LlmAnswers LlmQuery

text \<open>The variables \<^verbatim>\<open>query\<close>, \<^verbatim>\<open>only\<close>, \<^verbatim>\<open>and\<close>, \<^verbatim>\<open>usedLLM\<close> after the \<^verbatim>\<open>try\<close>/\<^verbatim>\<open>catch\<close>.\<close>

record Extraction =
  query :: Query
  only :: "bool option"
  andQ :: "AndQuery option"
  usedLLM :: bool

subsection \<open>The heuristic parser (the \<^verbatim>\<open>catch\<close> block)\<close>

text \<open>
  Both \<^verbatim>\<open>for\<close> statements with \<^verbatim>\<open>break\<close>: the label of the first entry one of whose synonyms
  is included in the lower-cased question.
\<close>

fun scanSynonyms :: "synonymsDict \<Rightarrow> string \<Rightarrow> string option" where
  "scanSynonyms [] lowerQ = None"
| "scanSynonyms ((label, synonyms) # rest) lowerQ =
     (if list_ex (\<lambda>syn. str_includes lowerQ syn) synonyms then Some label
      else scanSynonyms rest lowerQ)"

text \<open>
  The four regular expressions all have the shape \<^verbatim>\<open>pre([a-z]+)suf\<close> with literal \<open>pre\<close> and
  \<open>suf\<close>, and each \<open>suf\<close> is empty or starts with a space. \<open>matchAt\<close> is a match starting at
  the head of the text: the group takes the longest run of \<^verbatim>\<open>a\<close>..\<^verbatim>\<open>z\<close> (greedy), and giving
  characters back cannot help, since a shorter group is followed by a letter, which an
  empty \<open>suf\<close> does not need and a space does not match. \<open>regexMatch\<close> is
  \<^verbatim>\<open>lowerQ.match(pattern)\<close>: the leftmost start that matches; its value is the text of the group.
\<close>

definition isLowerAZ :: "char \<Rightarrow> bool" where
  "isLowerAZ c = (97 \<le> (of_char c :: nat) \<and> (of_char c :: nat) \<le> 122)"

definition matchAt :: "string \<Rightarrow> string \<Rightarrow> string \<Rightarrow> string option" where
  "matchAt pre suf s =
     (if startsWith s pre then
        (let rest = drop (length pre) s; captured = takeWhile isLowerAZ rest
         in if captured \<noteq> [] \<and> startsWith (dropWhile isLowerAZ rest) suf then Some captured
            else None)
      else None)"

fun regexMatch :: "string \<Rightarrow> string \<Rightarrow> string \<Rightarrow> string option" where
  "regexMatch pre suf [] = matchAt pre suf []"
| "regexMatch pre suf (c # cs) =
     (case matchAt pre suf (c # cs) of
        Some captured \<Rightarrow> Some captured
      | None \<Rightarrow> regexMatch pre suf cs)"

definition onlyPartsUsedPatterns :: "(string \<times> string) list" where
  "onlyPartsUsedPatterns =
     [(''only the '', '' are used''),
      ([], '' are the only part used''),
      (''parts used is only '', []),
      (''the only value in partsused is '', [])]"

text \<open>The loop over the patterns, left by \<^verbatim>\<open>break\<close> at the first \<^verbatim>\<open>match && match[1]\<close>.\<close>

fun firstPattern :: "(string \<times> string) list \<Rightarrow> string \<Rightarrow> string option" where
  "firstPattern [] lowerQ = None"
| "firstPattern ((pre, suf) # patterns) lowerQ =
     (case regexMatch pre suf lowerQ of
        Some captured \<Rightarrow> if captured \<noteq> [] then Some captured else firstPattern patterns lowerQ
      | None \<Rightarrow> firstPattern patterns lowerQ)"

text \<open>\<^verbatim>\<open>normalizedPart ? normalizedPart[0] : match[1]\<close>.\<close>

definition normalizedPart :: "string \<Rightarrow> string" where
  "normalizedPart captured =
     (case find (\<lambda>(canonical, synonyms). toLowerCase canonical = captured \<or> captured \<in> set synonyms)
             partUsedSynonyms of
        Some (canonical, synonyms) \<Rightarrow> canonical
      | None \<Rightarrow> captured)"

definition heuristicParse :: "string \<Rightarrow> Extraction" where
  "heuristicParse question =
     (let lowerQ = toLowerCase question;
          service = scanSynonyms ecosystemServiceSynonyms lowerQ;
          part = (if \<not> truthy service then scanSynonyms partUsedSynonyms lowerQ else None);
          spec = (if list_ex (\<lambda>syn. str_includes lowerQ syn) speciesSynonyms then None else None)
      in case firstPattern onlyPartsUsedPatterns lowerQ of
           None \<Rightarrow>
             \<lparr>query = \<lparr>species = spec, ecosystemService = service, partUsed = part\<rparr>,
              only = None, andQ = None, usedLLM = False\<rparr>
         | Some captured \<Rightarrow>
             \<lparr>query = \<lparr>species = spec, ecosystemService = service,
                        partUsed = Some (normalizedPart captured)\<rparr>,
              only = Some True, andQ = None, usedLLM = False\<rparr>)"

text \<open>
  The specification's vocabulary for the parser: a lower-cased question mentions an entry
  of a table when one of the entry's synonyms occurs in it, and it holds an exclusivity
  phrase when one of the four patterns matches it.
\<close>

definition mentions :: "string \<Rightarrow> string \<times> string list \<Rightarrow> bool" where
  "mentions lowerQ e = list_ex (\<lambda>syn. str_includes lowerQ syn) (snd e)"

definition exclusivityPhrase :: "string \<Rightarrow> bool" where
  "exclusivityPhrase lowerQ =
     list_ex (\<lambda>p. regexMatch (fst p) (snd p) lowerQ \<noteq> None) onlyPartsUsedPatterns"

subsection \<open>The structured extractor with its fallback\<close>

definition extractQuery :: "LlmOutcome \<Rightarrow> string \<Rightarrow> Extraction" where
  "extractQuery outcome question =
     (case outcome of
        LlmAnswers llmQuery \<Rightarrow>
          \<lparr>query = \<lparr>species = llm_species llmQuery,
                     ecosystemService =
                       normalizeField (llm_ecosystemService llmQuery) ecosystemServiceSynonyms,
                     partUsed = normalizeField (llm_partUsed llmQuery) partUsedSynonyms\<rparr>,
           only = llm_only llmQuery, andQ = llm_and llmQuery, usedLLM = True\<rparr>
      | LlmThrows \<Rightarrow> heuristicParse question)"

text \<open>\<^verbatim>\<open>/how many|number of|count/i.test(question)\<close>.\<close>

definition isCountQuery :: "string \<Rightarrow> bool" where
  "isCountQuery question =
     (let lowerQ = toLowerCase question
      in str_includes lowerQ ''how many'' \<or> str_includes lowerQ ''number of'' \<or>
         str_includes lowerQ ''count'')"

section \<open>Semantic ranking\<close>

text \<open>
  Numbers are IEEE 754 doubles. A finite double is modelled by the real it stands for, and
  every operation rounds its exact result: to the nearest double, ties to the even
  significand, 53 bits, with gradual underflow (the spacing below \<^verbatim>\<open>2^-1022\<close> is
  \<^verbatim>\<open>2^-1074\<close>) and overflow to an infinity from \<^verbatim>\<open>2^1024 - 2^970\<close> on. The components
  of an embedding come out of \<^verbatim>\<open>JSON.parse\<close> and are taken to be doubles. Zero carries no
  sign in the model: a negative zero could only show in the sign of an infinity produced
  by dividing by it, and the handler divides by a product of two square roots, which is
  never a negative zero.
\<close>

datatype number = Fin real | PInf | NInf | NaN

definition pow2 :: "int \<Rightarrow> real" where
  "pow2 k = (if 0 \<le> k then 2 ^ nat k else 1 / 2 ^ nat (- k))"

definition roundHalfEven :: "real \<Rightarrow> int" where
  "roundHalfEven y =
     (let f = \<lfloor>y\<rfloor>
      in if y - of_int f < 1 / 2 then f
         else if 1 / 2 < y - of_int f then f + 1
         else if even f then f else f + 1)"

definition binade :: "real \<Rightarrow> int" where
  "binade x = max \<lfloor>log 2 \<bar>x\<bar>\<rfloor> (- 1022)"

definition roundToDouble :: "real \<Rightarrow> real" where
  "roundToDouble x =
     (if x = 0 then 0
      else pow2 (binade x - 52) * of_int (roundHalfEven (x / pow2 (binade x - 52))))"

text \<open>\<open>fl\<close> is the double a real result is rounded to.\<close>

definition overflowThreshold :: real where
  "overflowThreshold = 2 ^ 1024 - 2 ^ 970"

definition fl :: "real \<Rightarrow> number" where
  "fl x =
     (if overflowThreshold \<le> x then PInf
      else if x \<le> - overflowThreshold then NInf
      else Fin (roundToDouble x))"

text \<open>The operators \<^verbatim>\<open>+\<close>, \<^verbatim>\<open>-\<close>, \<^verbatim>\<open>*\<close>, \<^verbatim>\<open>/\<close> and \<^verbatim>\<open>Math.sqrt\<close> on numbers.\<close>

fun js_add :: "number \<Rightarrow> number \<Rightarrow> number" where
  "js_add NaN y = NaN"
| "js_add x NaN = NaN"
| "js_add (Fin x) (Fin y) = fl (x + y)"
| "js_add PInf NInf = NaN"
| "js_add NInf PInf = NaN"
| "js_add PInf y = PInf"
| "js_add NInf y = NInf"
| "js_add (Fin x) PInf = PInf"
| "js_add (Fin x) NInf = NInf"

fun js_sub :: "number \<Rightarrow> number \<Rightarrow> number" where
  "js_sub NaN y = NaN"
| "js_sub x NaN = NaN"
| "js_sub (Fin x) (Fin y) = fl (x - y)"
| "js_sub PInf PInf = NaN"
| "js_sub NInf NInf = NaN"
| "js_sub PInf y = PInf"
| "js_sub NInf y = NInf"
| "js_sub (Fin x) PInf = NInf"
| "js_sub (Fin x) NInf = PInf"

fun js_mul :: "number \<Rightarrow> number \<Rightarrow> number" where
  "js_mul NaN y = NaN"
| "js_mul x NaN = NaN"
| "js_mul (Fin x) (Fin y) = fl (x * y)"
| "js_mul (Fin x) PInf = (if x = 0 then NaN else if 0 < x then PInf else NInf)"
| "js_mul (Fin x) NInf = (if x = 0 then NaN else if 0 < x then NInf else PInf)"
| "js_mul PInf (Fin y) = (if y = 0 then NaN else if 0 < y then PInf else NInf)"
| "js_mul NInf (Fin y) = (if y = 0 then NaN else if 0 < y then NInf else PInf)"
| "js_mul PInf PInf = PInf"
| "js_mul PInf NInf = NInf"
| "js_mul NInf PInf = NInf"
| "js_mul NInf NInf = PInf"

fun js_div :: "number \<Rightarrow> number \<Rightarrow> number" where
  "js_div NaN y = NaN"
| "js_div x NaN = NaN"
| "js_div (Fin x) (Fin y) =
     (if y = 0 then (if x = 0 then NaN else if 0 < x then PInf else NInf) else fl (x / y))"
| "js_div (Fin x) PInf = Fin 0"
| "js_div (Fin x) NInf = Fin 0"
| "js_div PInf (Fin y) = (if y < 0 then NInf else PInf)"
| "js_div NInf (Fin y) = (if y < 0 then PInf else NInf)"
| "js_div PInf PInf = NaN"
| "js_div PInf NInf = NaN"
| "js_div NInf PInf = NaN"
| "js_div NInf NInf = NaN"

fun js_sqrt :: "number \<Rightarrow> number" where
  "js_sqrt NaN = NaN"
| "js_sqrt PInf = PInf"
| "js_sqrt NInf = NaN"
| "js_sqrt (Fin x) = (if x < 0 then NaN else Fin (roundToDouble (sqrt x)))"

text \<open>
  \<^verbatim>\<open>b[i]\<close> as an operand: past the end of \<open>b\<close> it is \<^verbatim>\<open>undefined\<close>, which arithmetic turns
  into \<^verbatim>\<open>NaN\<close>. \<^verbatim>\<open>reduce\<close> is a left fold, over the elements with their indices for the dot
  product.
\<close>

definition element :: "real list \<Rightarrow> nat \<Rightarrow> number" where
  "element b i = (if i < length b then Fin (b ! i) else NaN)"

definition cosineSimilarity :: "real list \<Rightarrow> real list \<Rightarrow> number" where
  "cosineSimilarity a b =
     (let dot = foldl (\<lambda>sum (i, ai). js_add sum (js_mul (Fin ai) (element b i)))
                 (Fin 0) (enumerate 0 a);
          normA = js_sqrt (foldl (\<lambda>sum ai. js_add sum (js_mul (Fin ai) (Fin ai))) (Fin 0) a);
          normB = js_sqrt (foldl (\<lambda>sum bi. js_add sum (js_mul (Fin bi) (Fin bi))) (Fin 0) b)
      in js_div dot (js_mul normA normB))"


text \<open>
  A catalog entry. The handler declares the loaded catalog as \<^verbatim>\<open>ScoredTreeSpecies[]\<close>, but
  the file \<^verbatim>\<open>data_with_embeddings.json\<close> is written by \<^verbatim>\<open>scripts/add-embeddings.ts\<close>, which
  adds \<^verbatim>\<open>embedding\<close> only: the field \<^verbatim>\<open>similarity\<close> of a loaded entry is whatever the file
  holds, \<open>None\<close> when the key is absent.
\<close>

record TreeSpecies =
  Species :: string
  Family :: string
  EcosystemService :: "string list"
  PartsUsed :: "string list"
  RelatedFunctionalTraits :: "string list"

record ScoredTreeSpecies = TreeSpecies +
  embedding :: "real list"
  similarity :: "number option"

text \<open>\<^verbatim>\<open>{ ...entry, similarity: cosineSimilarity(questionEmbedding, entry.embedding) }\<close>.\<close>

definition score :: "real list \<Rightarrow> ScoredTreeSpecies \<Rightarrow> ScoredTreeSpecies" where
  "score questionEmbedding entry =
     entry\<lparr>similarity := Some (cosineSimilarity questionEmbedding (embedding entry))\<rparr>"

text \<open>
  \<^verbatim>\<open>scored.sort((a, b) => b.similarity - a.similarity)\<close>. The comparator's value puts \<open>a\<close>
  after \<open>b\<close> when it is positive; \<^verbatim>\<open>NaN\<close> counts as zero. The sort is stable, and for a
  consistent comparator the result of a stable sort is fixed: it is the result of the
  insertion sort below. Where a similarity is \<^verbatim>\<open>NaN\<close> the comparator is not consistent and
  ECMAScript leaves the order to the engine; the model then still returns the insertion
  sort's order, and no statement below speaks of the order in that case.
\<close>

definition similarityOf :: "ScoredTreeSpecies \<Rightarrow> number" where
  "similarityOf entry = (case similarity entry of None \<Rightarrow> NaN | Some v \<Rightarrow> v)"

definition positive :: "number \<Rightarrow> bool" where
  "positive v = (case v of Fin x \<Rightarrow> 0 < x | PInf \<Rightarrow> True | NInf \<Rightarrow> False | NaN \<Rightarrow> False)"

definition comesAfter :: "ScoredTreeSpecies \<Rightarrow> ScoredTreeSpecies \<Rightarrow> bool" where
  "comesAfter a b = positive (js_sub (similarityOf b) (similarityOf a))"

fun insertRanked :: "ScoredTreeSpecies \<Rightarrow> ScoredTreeSpecies list \<Rightarrow> ScoredTreeSpecies list" where
  "insertRanked a [] = [a]"
| "insertRanked a (b # bs) = (if comesAfter a b then b # insertRanked a bs else a # b # bs)"

fun sortBySimilarity :: "ScoredTreeSpecies list \<Rightarrow> ScoredTreeSpecies list" where
  "sortBySimilarity [] = []"
| "sortBySimilarity (a # as) = insertRanked a (sortBySimilarity as)"

definition ranked :: "real list \<Rightarrow> ScoredTreeSpecies list \<Rightarrow> ScoredTreeSpecies list" where
  "ranked questionEmbedding dataWithEmbeddings =
     sortBySimilarity (map (score questionEmbedding) dataWithEmbeddings)"

section \<open>Filter combination\<close>

text \<open>The tests the handler's filter callbacks make on one item.\<close>

definition soleService :: "string \<Rightarrow> ScoredTreeSpecies \<Rightarrow> bool" where
  "soleService v item =
     (length (EcosystemService item) = 1 \<and>
      toLowerCase (EcosystemService item ! 0) = toLowerCase v)"

definition solePart :: "string \<Rightarrow> ScoredTreeSpecies \<Rightarrow> bool" where
  "solePart v item =
     (length (PartsUsed item) = 1 \<and> toLowerCase (PartsUsed item ! 0) = toLowerCase v)"

definition someService :: "string \<Rightarrow> ScoredTreeSpecies \<Rightarrow> bool" where
  "someService v item =
     list_ex (\<lambda>s. str_includes (toLowerCase s) (toLowerCase v)) (EcosystemService item)"

definition somePart :: "string \<Rightarrow> ScoredTreeSpecies \<Rightarrow> bool" where
  "somePart v item =
     list_ex (\<lambda>p. str_includes (toLowerCase p) (toLowerCase v)) (PartsUsed item)"

text \<open>The callback of the \<^verbatim>\<open>if (only)\<close> branch, with its local variable \<^verbatim>\<open>match\<close>.\<close>

definition onlyCallback :: "Query \<Rightarrow> ScoredTreeSpecies \<Rightarrow> bool" where
  "onlyCallback q item =
     (let match0 = True;
          match1 = (if truthy (ecosystemService q)
                    then match0 \<and> soleService (the (ecosystemService q)) item else match0);
          match2 = (if truthy (partUsed q)
                    then match1 \<and> solePart (the (partUsed q)) item else match1)
      in match2)"

text \<open>The callback of the \<^verbatim>\<open>else\<close> branch.\<close>

definition defaultCallback :: "Query \<Rightarrow> ScoredTreeSpecies \<Rightarrow> bool" where
  "defaultCallback q item =
     (let speciesMatch =
            (\<not> truthy (species q) \<or>
             str_includes (toLowerCase (Species item)) (toLowerCase (the (species q))));
          ecosystemMatch =
            (\<not> truthy (ecosystemService q) \<or> someService (the (ecosystemService q)) item);
          partMatch = (\<not> truthy (partUsed q) \<or> somePart (the (partUsed q)) item)
      in speciesMatch \<and> ecosystemMatch \<and> partMatch)"

text \<open>The first assignment of \<^verbatim>\<open>filtered\<close>: one of the two primary branches.\<close>

definition primaryBranch ::
  "Extraction \<Rightarrow> ScoredTreeSpecies list \<Rightarrow> ScoredTreeSpecies list \<Rightarrow> ScoredTreeSpecies list" where
  "primaryBranch ex dataWithEmbeddings scored =
     (if truthyBool (only ex) then filter (onlyCallback (query ex)) dataWithEmbeddings
      else filter (defaultCallback (query ex)) scored)"

text \<open>The block \<^verbatim>\<open>// Handle 'only' logic\<close>, which filters \<^verbatim>\<open>filtered\<close> again.\<close>

definition onlyAgain :: "Extraction \<Rightarrow> ScoredTreeSpecies list \<Rightarrow> ScoredTreeSpecies list" where
  "onlyAgain ex filtered =
     (if truthyBool (only ex) then
        (let f1 = (if truthy (ecosystemService (query ex))
                   then filter (soleService (the (ecosystemService (query ex)))) filtered
                   else filtered);
             f2 = (if truthy (partUsed (query ex))
                   then filter (solePart (the (partUsed (query ex)))) f1 else f1)
         in f2)
      else filtered)"

text \<open>The block \<^verbatim>\<open>// Handle 'and' logic\<close>.\<close>

definition andLogic :: "AndQuery option \<Rightarrow> ScoredTreeSpecies list \<Rightarrow> ScoredTreeSpecies list" where
  "andLogic a filtered =
     (case a of
        None \<Rightarrow> filtered
      | Some andObj \<Rightarrow>
          (let f1 = (if truthy (and_ecosystemService andObj)
                     then filter (someService (the (and_ecosystemService andObj))) filtered
                     else filtered);
               f2 = (if truthy (and_partUsed andObj)
                     then filter (somePart (the (and_partUsed andObj))) f1 else f1)
           in f2))"

definition finalFiltered ::
  "Extraction \<Rightarrow> real list \<Rightarrow> ScoredTreeSpecies list \<Rightarrow> ScoredTreeSpecies list" where
  "finalFiltered ex questionEmbedding dataWithEmbeddings =
     andLogic (andQ ex)
       (onlyAgain ex
          (primaryBranch ex dataWithEmbeddings (ranked questionEmbedding dataWithEmbeddings)))"

text \<open>
  The specification's wording of the filters, written without the handler's functions.
  Two characters are the same letter when they are equal or one is a capital of the
  alphabet and the other its small form; two strings are the same ignoring case when they
  have the same length and the same letters throughout; a value occurs in a string
  ignoring case when some contiguous piece of the string is the same as the value
  ignoring case.
\<close>

definition caseVariants :: "(char \<times> char) list" where
  "caseVariants = zip ''ABCDEFGHIJKLMNOPQRSTUVWXYZ'' ''abcdefghijklmnopqrstuvwxyz''"

definition sameLetter :: "char \<Rightarrow> char \<Rightarrow> bool" where
  "sameLetter c d = (c = d \<or> (c, d) \<in> set caseVariants \<or> (d, c) \<in> set caseVariants)"

definition sameIgnoringCase :: "string \<Rightarrow> string \<Rightarrow> bool" where
  "sameIgnoringCase s t = list_all2 sameLetter s t"

definition occursIgnoringCase :: "string \<Rightarrow> string \<Rightarrow> bool" where
  "occursIgnoringCase v s =
     (\<exists>before piece after. s = before @ piece @ after \<and> sameIgnoringCase piece v)"

text \<open>
  Exclusivity: for each of \<^verbatim>\<open>ecosystemService\<close> and \<^verbatim>\<open>partUsed\<close> that is not \<^verbatim>\<open>null\<close> in the
  query, the entry's array has exactly one element, and that element is the query's value
  ignoring case.
\<close>

definition specExclusive :: "Query \<Rightarrow> ScoredTreeSpecies \<Rightarrow> bool" where
  "specExclusive q entry =
     ((\<forall>v. ecosystemService q = Some v \<longrightarrow>
         (\<exists>s. EcosystemService entry = [s] \<and> sameIgnoringCase s v)) \<and>
      (\<forall>v. partUsed q = Some v \<longrightarrow>
         (\<exists>p. PartsUsed entry = [p] \<and> sameIgnoringCase p v)))"

text \<open>
  Membership by substring: some service, or some part, of the entry holds the value
  ignoring case.
\<close>

definition anyServiceHas :: "string \<Rightarrow> ScoredTreeSpecies \<Rightarrow> bool" where
  "anyServiceHas v entry = (\<exists>s\<in>set (EcosystemService entry). occursIgnoringCase v s)"

definition anyPartHas :: "string \<Rightarrow> ScoredTreeSpecies \<Rightarrow> bool" where
  "anyPartHas v entry = (\<exists>p\<in>set (PartsUsed entry). occursIgnoringCase v p)"

text \<open>
  The default predicate: each of \<^verbatim>\<open>species\<close>, \<^verbatim>\<open>ecosystemService\<close> and \<^verbatim>\<open>partUsed\<close> that is
  not \<^verbatim>\<open>null\<close> in the query occurs, ignoring case, in the species name, in some service,
  in some part.
\<close>

definition specDefault :: "Query \<Rightarrow> ScoredTreeSpecies \<Rightarrow> bool" where
  "specDefault q entry =
     ((\<forall>v. species q = Some v \<longrightarrow> occursIgnoringCase v (Species entry)) \<and>
      (\<forall>v. ecosystemService q = Some v \<longrightarrow> anyServiceHas v entry) \<and>
      (\<forall>v. partUsed q = Some v \<longrightarrow> anyPartHas v entry))"

text \<open>
  The two predicates of the \<^verbatim>\<open>and\<close> object: a field that is a non-empty string asks for
  membership by substring; an absent field and the empty string ask for nothing.
\<close>

definition andServicePredicate :: "AndQuery option \<Rightarrow> ScoredTreeSpecies \<Rightarrow> bool" where
  "andServicePredicate a entry =
     (\<forall>andObj v. a = Some andObj \<and> and_ecosystemService andObj = Some v \<and> v \<noteq> [] \<longrightarrow>
        anyServiceHas v entry)"

definition andPartPredicate :: "AndQuery option \<Rightarrow> ScoredTreeSpecies \<Rightarrow> bool" where
  "andPartPredicate a entry =
     (\<forall>andObj v. a = Some andObj \<and> and_partUsed andObj = Some v \<and> v \<noteq> [] \<longrightarrow>
        anyPartHas v entry)"

text \<open>Descending order of two entries whose similarities are numbers.\<close>

definition notBelow :: "ScoredTreeSpecies \<Rightarrow> ScoredTreeSpecies \<Rightarrow> bool" where
  "notBelow a b =
     (case (similarityOf a, similarityOf b) of
        (Fin x, Fin y) \<Rightarrow> y \<le> x
      | _ \<Rightarrow> False)"

text \<open>
  Every finite double is a whole multiple of \<^verbatim>\<open>2^-1074\<close>. An entry has a finite similarity
  when its similarity is such a number.
\<close>

definition onGrid :: "real \<Rightarrow> bool" where
  "onGrid x = (\<exists>n::int. x = of_int n * pow2 (- 1074))"

definition finite_similarity :: "ScoredTreeSpecies \<Rightarrow> bool" where
  "finite_similarity entry = (case similarityOf entry of Fin x \<Rightarrow> onGrid x | _ \<Rightarrow> False)"

section \<open>The request handler\<close>

text \<open>
  The collaborators of \<^verbatim>\<open>POST\<close>: the completion service with the parsing of its answer,
  the embedding service (\<open>None\<close>: it throws), \<^verbatim>\<open>fetchPublicJson\<close> (\<open>None\<close>: the response is
  not ok and the function throws; a body that is not JSON is left out) and
  \<^verbatim>\<open>fetchGbifImages\<close>, which catches its own errors and returns a list in every case.
  \<open>LlmCall\<close> stands for entering the \<^verbatim>\<open>try\<close> block of the extraction.
\<close>

record Collaborators =
  llm :: "string \<Rightarrow> LlmOutcome"
  embeddingsCreate :: "string \<Rightarrow> real list option"
  fetchPublicJson :: "string \<Rightarrow> ScoredTreeSpecies list option"
  fetchGbifImages :: "string \<Rightarrow> string list"

text \<open>The calls the handler makes, in the order it makes them.\<close>

datatype Call =
  LlmCall string
| EmbeddingCall string
| JsonFetch string
| GbifCall string

text \<open>\<^verbatim>\<open>{ ...item, images }\<close>, and the three shapes of the response with the HTTP status.\<close>

record WithImages =
  item :: ScoredTreeSpecies
  images :: "string list"

datatype Response =
  ErrorResponse nat string
| CountResponse nat
| ResultsResponse "WithImages list"

definition POST :: "Collaborators \<Rightarrow> string option \<Rightarrow> Response \<times> Call list" where
  "POST env body =
     (if \<not> truthy body then (ErrorResponse 400 ''No question provided'', [])
      else
        (let question = the body;
             ex = extractQuery (llm env question) question;
             calls1 = [LlmCall question, EmbeddingCall question]
         in case embeddingsCreate env question of
              None \<Rightarrow> (ErrorResponse 500 ''Failed to generate embedding for question.'', calls1)
            | Some questionEmbedding \<Rightarrow>
                (let calls2 = calls1 @ [JsonFetch ''data_with_embeddings.json'']
                 in case fetchPublicJson env ''data_with_embeddings.json'' of
                      None \<Rightarrow>
                        (ErrorResponse 500 ''Failed to fetch data_with_embeddings.json'', calls2)
                    | Some dataWithEmbeddings \<Rightarrow>
                        (let filtered = finalFiltered ex questionEmbedding dataWithEmbeddings;
                             resultsWithImages =
                               map (\<lambda>it. \<lparr>item = it, images = fetchGbifImages env (Species it)\<rparr>)
                                 filtered;
                             calls3 = calls2 @ map (\<lambda>it. GbifCall (Species it)) filtered
                         in if isCountQuery question
                            then (CountResponse (length filtered), calls3)
                            else (ResultsResponse resultsWithImages, calls3)))))"

section \<open>A small catalog for worked examples\<close>

text \<open>
  Entries as \<^verbatim>\<open>scripts/add-embeddings.ts\<close> writes them: no \<^verbatim>\<open>similarity\<close> key. The embedding
  service of the examples answers every question with the vector \<open>[1, 0]\<close>, the image
  lookup with one URL per species, and the completion service with a fixed outcome.
\<close>

definition andiroba :: ScoredTreeSpecies where
  "andiroba =
     \<lparr>Species = ''Carapa guianensis'', Family = ''Meliaceae'',
      EcosystemService = [''Medicinal'', ''Raw Material''], PartsUsed = [''seed'', ''bark''],
      RelatedFunctionalTraits = [], embedding = [0, 1], similarity = None\<rparr>"

definition copaiba :: ScoredTreeSpecies where
  "copaiba =
     \<lparr>Species = ''Copaifera multijuga'', Family = ''Fabaceae'',
      EcosystemService = [''Medicinal''], PartsUsed = [''bark''],
      RelatedFunctionalTraits = [], embedding = [1, 0], similarity = None\<rparr>"

definition castanha :: ScoredTreeSpecies where
  "castanha =
     \<lparr>Species = ''Bertholletia excelsa'', Family = ''Lecythidaceae'',
      EcosystemService = [''Food''], PartsUsed = [''seed''],
      RelatedFunctionalTraits = [], embedding = [- 1, 0], similarity = None\<rparr>"

definition urucum :: ScoredTreeSpecies where
  "urucum =
     \<lparr>Species = ''Bixa orellana'', Family = ''Bixaceae'',
      EcosystemService = [''Medicinal''], PartsUsed = [''leaves''],
      RelatedFunctionalTraits = [], embedding = [0, 1], similarity = None\<rparr>"

definition jatoba :: ScoredTreeSpecies where
  "jatoba =
     \<lparr>Species = ''Hymenaea courbaril'', Family = ''Fabaceae'',
      EcosystemService = [''Food'', ''Medicinal''], PartsUsed = [''leaves'', ''bark''],
      RelatedFunctionalTraits = [], embedding = [1, 0], similarity = None\<rparr>"

definition sangue :: ScoredTreeSpecies where
  "sangue =
     \<lparr>Species = ''Croton lechleri'', Family = ''Euphorbiaceae'',
      EcosystemService = [''medicinal''], PartsUsed = [''Bark''],
      RelatedFunctionalTraits = [], embedding = [0, 1], similarity = None\<rparr>"

definition copaibaOil :: ScoredTreeSpecies where
  "copaibaOil =
     \<lparr>Species = ''Copaifera langsdorffii'', Family = ''Fabaceae'',
      EcosystemService = [''Food'', ''medicinal use''], PartsUsed = [''inner Bark''],
      RelatedFunctionalTraits = [], embedding = [0, 1], similarity = None\<rparr>"

definition copaibaLeaf :: ScoredTreeSpecies where
  "copaibaLeaf =
     \<lparr>Species = ''Copaifera reticulata'', Family = ''Fabaceae'',
      EcosystemService = [''Medicinal''], PartsUsed = [''leaves''],
      RelatedFunctionalTraits = [], embedding = [- 1, 0], similarity = None\<rparr>"

text \<open>An entry with no service and no part recorded, and one whose embedding is zero.\<close>

definition pauRosa :: ScoredTreeSpecies where
  "pauRosa =
     \<lparr>Species = ''Aniba rosaeodora'', Family = ''Lauraceae'',
      EcosystemService = [], PartsUsed = [],
      RelatedFunctionalTraits = [], embedding = [1, 0], similarity = None\<rparr>"


definition askMedicine :: LlmQuery where
  "askMedicine =
     \<lparr>llm_species = None, llm_ecosystemService = Some ''medicine'', llm_partUsed = None,
      llm_only = None, llm_and = None\<rparr>"

definition askMedicinalAndBark :: LlmQuery where
  "askMedicinalAndBark =
     \<lparr>llm_species = None, llm_ecosystemService = Some ''Medicinal'', llm_partUsed = None,
      llm_only = None,
      llm_and = Some \<lparr>and_ecosystemService = Some ''raw'', and_partUsed = Some ''BARK''\<rparr>\<rparr>"

definition askOnlyMedicineBark :: LlmQuery where
  "askOnlyMedicineBark =
     \<lparr>llm_species = None, llm_ecosystemService = Some ''medicine'', llm_partUsed = Some ''BARK'',
      llm_only = Some True, llm_and = None\<rparr>"

definition askCopaiferaMedicineBark :: LlmQuery where
  "askCopaiferaMedicineBark =
     \<lparr>llm_species = Some ''COPAIFERA'', llm_ecosystemService = Some ''medicine'',
      llm_partUsed = Some ''Bark'', llm_only = None, llm_and = None\<rparr>"

definition askAndEmptyService :: LlmQuery where
  "askAndEmptyService =
     \<lparr>llm_species = None, llm_ecosystemService = None, llm_partUsed = None, llm_only = None,
      llm_and = Some \<lparr>and_ecosystemService = Some [], and_partUsed = None\<rparr>\<rparr>"

definition collaborators :: "LlmOutcome \<Rightarrow> ScoredTreeSpecies list \<Rightarrow> Collaborators" where
  "collaborators outcome catalog =
     \<lparr>llm = (\<lambda>question. outcome),
      embeddingsCreate = (\<lambda>question. Some [1, 0]),
      fetchPublicJson =
        (\<lambda>filename. if filename = ''data_with_embeddings.json'' then Some catalog else None),
      fetchGbifImages = (\<lambda>speciesName. [''https://img.example/'' @ speciesName])\<rparr>"

section \<open>Properties of the string functions\<close>

text \<open>\<open>str_includes\<close> is the substring test, and lower-casing twice changes nothing.\<close>

lemma startsWith_iff: "startsWith s p = (\<exists>rest. s = p @ rest)"
  by (induction s p rule: startsWith.induct) auto

lemma str_includes_iff: "str_includes s sub = (\<exists>before after. s = before @ sub @ after)"
proof (induction s)
  case Nil
  show ?case by auto
next
  case (Cons c cs)
  show ?case
  proof
    assume "str_includes (c # cs) sub"
    then consider "startsWith (c # cs) sub" | "str_includes cs sub" by auto
    then show "\<exists>before after. c # cs = before @ sub @ after"
    proof cases
      case 1
      then obtain rest where "c # cs = [] @ sub @ rest" by (auto simp: startsWith_iff)
      then show ?thesis by blast
    next
      case 2
      with Cons obtain before after where "cs = before @ sub @ after" by blast
      then have "c # cs = (c # before) @ sub @ after" by simp
      then show ?thesis by blast
    qed
  next
    assume "\<exists>before after. c # cs = before @ sub @ after"
    then obtain before after where d: "c # cs = before @ sub @ after" by blast
    show "str_includes (c # cs) sub"
    proof (cases before)
      case Nil
      with d have "startsWith (c # cs) sub" by (auto simp: startsWith_iff)
      then show ?thesis by simp
    next
      case (Cons b bs)
      with d have "cs = bs @ sub @ after" by simp
      with Cons.IH have "str_includes cs sub" by blast
      then show ?thesis by simp
    qed
  qed
qed

lemma toLowerCase_idem: "toLowerCase (toLowerCase s) = toLowerCase s"
proof -
  have "lowerChar (lowerChar c) = lowerChar c" for c
    by (cases c) (auto simp: isUpper_def)
  then show ?thesis by (simp add: toLowerCase_def)
qed

subsection \<open>Case-insensitive equality and occurrence\<close>

text \<open>
  The handler compares lower-cased strings and searches lower-cased strings; this is the
  specification's equality and occurrence ignoring case.
\<close>

lemma all_chars: "list_all P (Enum.enum :: char list) \<Longrightarrow> P c"
  by (simp add: list_all_iff enum_UNIV)

lemma upper_variant: "isUpper c \<Longrightarrow> (c, lowerChar c) \<in> set caseVariants"
proof -
  have "list_all (\<lambda>c. isUpper c \<longrightarrow> (c, lowerChar c) \<in> set caseVariants) Enum.enum"
    by code_simp
  then show "isUpper c \<Longrightarrow> (c, lowerChar c) \<in> set caseVariants"
    using all_chars [of "\<lambda>c. isUpper c \<longrightarrow> (c, lowerChar c) \<in> set caseVariants" c] by simp
qed

lemma lower_fixed: "\<not> isUpper c \<Longrightarrow> lowerChar c = c"
  by (cases c) simp

lemma variant_facts:
  "list_all (\<lambda>(u, l). isUpper u \<and> lowerChar u = l \<and> \<not> isUpper l) caseVariants"
  by code_simp

lemma variant_distinct: "distinct (map snd caseVariants)"
  by code_simp

lemma snd_unique:
  "distinct (map snd xs) \<Longrightarrow> (c, l) \<in> set xs \<Longrightarrow> (d, l) \<in> set xs \<Longrightarrow> c = d"
  by (induction xs) force+

lemma variant_unique: "(c, l) \<in> set caseVariants \<Longrightarrow> (d, l) \<in> set caseVariants \<Longrightarrow> c = d"
  by (rule snd_unique [OF variant_distinct])

lemma variant_lower: "(c, d) \<in> set caseVariants \<Longrightarrow> lowerChar c = d \<and> lowerChar d = d"
  using variant_facts lower_fixed [of d] by (auto simp: list_all_iff)

lemma sameLetter_iff: "sameLetter c d = (lowerChar c = lowerChar d)"
proof
  assume "sameLetter c d"
  then show "lowerChar c = lowerChar d"
    unfolding sameLetter_def
  proof (elim disjE)
    assume "c = d"
    then show ?thesis by simp
  next
    assume "(c, d) \<in> set caseVariants"
    then have "lowerChar c = d" "lowerChar d = d" using variant_lower by blast+
    then show ?thesis by simp
  next
    assume "(d, c) \<in> set caseVariants"
    then have "lowerChar d = c" "lowerChar c = c" using variant_lower by blast+
    then show ?thesis by simp
  qed
next
  assume eq: "lowerChar c = lowerChar d"
  show "sameLetter c d"
  proof (cases "isUpper c"; cases "isUpper d")
    assume u: "isUpper c" "isUpper d"
    from u(1) have "(c, lowerChar c) \<in> set caseVariants" by (rule upper_variant)
    moreover from u(2) have "(d, lowerChar d) \<in> set caseVariants" by (rule upper_variant)
    then have "(d, lowerChar c) \<in> set caseVariants" by (simp only: eq)
    ultimately have "c = d" by (rule variant_unique)
    then show ?thesis by (simp add: sameLetter_def)
  next
    assume u: "isUpper c" "\<not> isUpper d"
    from u(2) have "lowerChar d = d" by (rule lower_fixed)
    with eq have "lowerChar c = d" by (rule trans)
    moreover from u(1) have "(c, lowerChar c) \<in> set caseVariants" by (rule upper_variant)
    ultimately have "(c, d) \<in> set caseVariants" by (rule subst)
    then show ?thesis by (simp add: sameLetter_def)
  next
    assume u: "\<not> isUpper c" "isUpper d"
    from u(1) have "lowerChar c = c" by (rule lower_fixed)
    with eq [symmetric] have "lowerChar d = c" by (rule trans)
    moreover from u(2) have "(d, lowerChar d) \<in> set caseVariants" by (rule upper_variant)
    ultimately have "(d, c) \<in> set caseVariants" by (rule subst)
    then show ?thesis by (simp add: sameLetter_def)
  next
    assume u: "\<not> isUpper c" "\<not> isUpper d"
    have "c = lowerChar c" by (rule lower_fixed [OF u(1), symmetric])
    also have "\<dots> = lowerChar d" by (rule eq)
    also have "\<dots> = d" by (rule lower_fixed [OF u(2)])
    finally show ?thesis by (simp add: sameLetter_def)
  qed
qed

lemma sameIgnoringCase_iff: "sameIgnoringCase s t = (toLowerCase s = toLowerCase t)"
proof -
  have "sameLetter = (\<lambda>c d. lowerChar c = lowerChar d)"
    by (intro ext) (rule sameLetter_iff)
  then have "list_all2 sameLetter s t = list_all2 (=) (map lowerChar s) (map lowerChar t)"
    by (simp add: list_all2_map1 list_all2_map2)
  then show ?thesis by (simp add: sameIgnoringCase_def toLowerCase_def list_all2_eq [symmetric])
qed

lemma includes_occurs:
  "str_includes (toLowerCase s) (toLowerCase v) = occursIgnoringCase v s"
proof
  assume "str_includes (toLowerCase s) (toLowerCase v)"
  then obtain B A where "map lowerChar s = B @ map lowerChar v @ A"
    by (auto simp: str_includes_iff toLowerCase_def)
  then have "\<exists>before rest. s = before @ rest \<and> B = map lowerChar before \<and>
      map lowerChar v @ A = map lowerChar rest"
    by (rule map_eq_append_conv [THEN iffD1])
  then obtain before rest where s: "s = before @ rest"
    and rest: "map lowerChar rest = map lowerChar v @ A"
    by metis
  from rest have "\<exists>piece after. rest = piece @ after \<and> map lowerChar v = map lowerChar piece \<and>
      A = map lowerChar after"
    by (rule map_eq_append_conv [THEN iffD1])
  then obtain piece after where "rest = piece @ after"
    "map lowerChar piece = map lowerChar v"
    by metis
  with s have "s = before @ piece @ after \<and> sameIgnoringCase piece v"
    by (simp add: sameIgnoringCase_iff toLowerCase_def)
  then show "occursIgnoringCase v s" unfolding occursIgnoringCase_def by blast
next
  assume "occursIgnoringCase v s"
  then obtain before piece after where "s = before @ piece @ after"
    "toLowerCase piece = toLowerCase v"
    by (auto simp: occursIgnoringCase_def sameIgnoringCase_iff)
  then have "toLowerCase s = toLowerCase before @ toLowerCase v @ toLowerCase after"
    by (simp add: toLowerCase_def)
  then show "str_includes (toLowerCase s) (toLowerCase v)"
    unfolding str_includes_iff by blast
qed

lemma occursIgnoringCase_Nil: "occursIgnoringCase v [] = (v = [])"
  by (auto simp: occursIgnoringCase_def sameIgnoringCase_def)

lemma occursIgnoringCase_Cons:
  "occursIgnoringCase v (c # cs) =
     (sameIgnoringCase (take (length v) (c # cs)) v \<or> occursIgnoringCase v cs)"
proof
  assume "occursIgnoringCase v (c # cs)"
  then obtain before piece after where d: "c # cs = before @ piece @ after"
    and same: "sameIgnoringCase piece v"
    by (auto simp: occursIgnoringCase_def)
  from same have len: "length piece = length v"
    by (simp add: sameIgnoringCase_def list_all2_lengthD)
  show "sameIgnoringCase (take (length v) (c # cs)) v \<or> occursIgnoringCase v cs"
  proof (cases before)
    case Nil
    with d len have "take (length v) (c # cs) = piece" by simp
    with same show ?thesis by simp
  next
    case (Cons b bs)
    with d have "cs = bs @ piece @ after" by simp
    with same show ?thesis unfolding occursIgnoringCase_def by blast
  qed
next
  assume "sameIgnoringCase (take (length v) (c # cs)) v \<or> occursIgnoringCase v cs"
  then show "occursIgnoringCase v (c # cs)"
  proof
    assume "sameIgnoringCase (take (length v) (c # cs)) v"
    moreover have "c # cs = [] @ take (length v) (c # cs) @ drop (length v) (c # cs)"
      by simp
    ultimately show ?thesis unfolding occursIgnoringCase_def by blast
  next
    assume "occursIgnoringCase v cs"
    then obtain before piece after where "cs = before @ piece @ after"
      "sameIgnoringCase piece v"
      by (auto simp: occursIgnoringCase_def)
    then have "c # cs = (c # before) @ piece @ after \<and> sameIgnoringCase piece v" by simp
    then show ?thesis unfolding occursIgnoringCase_def by blast
  qed
qed

lemmas spec_eval = occursIgnoringCase_Nil occursIgnoringCase_Cons sameIgnoringCase_def
  sameLetter_def caseVariants_def


lemma occursIgnoringCase_empty: "occursIgnoringCase [] s"
  by (cases s) (simp_all add: occursIgnoringCase_Nil occursIgnoringCase_Cons
      sameIgnoringCase_def)

section \<open>Properties of the normalizer\<close>

lemmas string_eval = toLowerCase_def isUpper_def trim_def isWhiteSpace_def truthy_def

lemma answers_iff:
  "answers v (c, syns) =
     (toLowerCase c = toLowerCase (trim v) \<or>
      list_ex (\<lambda>syn. toLowerCase syn = toLowerCase (trim v)) syns)"
  by (auto simp: answers_def list_ex_iff)

lemma normalizeLoop_first:
  "(normalizeLoop v (toLowerCase (trim v)) dict = v \<and> (\<forall>e\<in>set dict. \<not> answers v e)) \<or>
   (\<exists>pre canonical synonyms post.
      dict = pre @ (canonical, synonyms) # post \<and> answers v (canonical, synonyms) \<and>
      (\<forall>e\<in>set pre. \<not> answers v e) \<and>
      normalizeLoop v (toLowerCase (trim v)) dict = canonical)"
proof (induction dict)
  case Nil
  show ?case by simp
next
  case (Cons e dict)
  obtain c syns where e: "e = (c, syns)" by (cases e)
  show ?case
  proof (cases "answers v e")
    case True
    then have "normalizeLoop v (toLowerCase (trim v)) (e # dict) = c"
      by (auto simp: e answers_iff)
    with True have "e # dict = [] @ (c, syns) # dict \<and> answers v (c, syns) \<and>
        (\<forall>x\<in>set []. \<not> answers v x) \<and> normalizeLoop v (toLowerCase (trim v)) (e # dict) = c"
      by (simp add: e)
    then show ?thesis by blast
  next
    case False
    then have step: "normalizeLoop v (toLowerCase (trim v)) (e # dict) =
        normalizeLoop v (toLowerCase (trim v)) dict"
      by (simp add: e answers_iff)
    from Cons.IH show ?thesis
    proof
      assume "normalizeLoop v (toLowerCase (trim v)) dict = v \<and> (\<forall>e\<in>set dict. \<not> answers v e)"
      with False step show ?thesis by simp
    next
      assume "\<exists>pre canonical synonyms post.
        dict = pre @ (canonical, synonyms) # post \<and> answers v (canonical, synonyms) \<and>
        (\<forall>e\<in>set pre. \<not> answers v e) \<and>
        normalizeLoop v (toLowerCase (trim v)) dict = canonical"
      then obtain pre c' syns' post where h: "dict = pre @ (c', syns') # post"
        "answers v (c', syns')" "\<forall>e\<in>set pre. \<not> answers v e"
        "normalizeLoop v (toLowerCase (trim v)) dict = c'"
        by blast
      have "e # dict = (e # pre) @ (c', syns') # post \<and> answers v (c', syns') \<and>
        (\<forall>x\<in>set (e # pre). \<not> answers v x) \<and>
        normalizeLoop v (toLowerCase (trim v)) (e # dict) = c'"
        using h False step by simp
      then show ?thesis by blast
    qed
  qed
qed

lemma normalizeLoop_range:
  "normalizeLoop v lv dict \<noteq> v \<Longrightarrow> normalizeLoop v lv dict \<in> fst ` set dict"
  by (induction dict) (auto split: if_splits)

lemma normalizeField_run:
  "v \<noteq> [] \<Longrightarrow>
   normalizeField (Some v) dict = Some (normalizeLoop v (toLowerCase (trim v)) dict)"
  by (simp add: normalizeField_def truthy_def)

lemma normalizeField_hit:
  assumes "v \<noteq> []" "\<exists>e\<in>set dict. answers v e"
  shows "\<exists>pre canonical synonyms post.
           dict = pre @ (canonical, synonyms) # post \<and> answers v (canonical, synonyms) \<and>
           (\<forall>e\<in>set pre. \<not> answers v e) \<and>
           normalizeField (Some v) dict = Some canonical"
  using normalizeLoop_first [of v dict] assms normalizeField_run [of v dict] by fastforce

lemma normalizeField_miss:
  assumes "v \<noteq> []" "\<forall>e\<in>set dict. \<not> answers v e"
  shows "normalizeField (Some v) dict = Some v"
proof -
  have "normalizeLoop v (toLowerCase (trim v)) dict = v"
  proof (rule ccontr)
    assume "normalizeLoop v (toLowerCase (trim v)) dict \<noteq> v"
    with normalizeLoop_first [of v dict] obtain pre canonical synonyms post
      where d: "dict = pre @ (canonical, synonyms) # post"
        and a: "answers v (canonical, synonyms)"
      by blast
    have "(canonical, synonyms) \<in> set (pre @ (canonical, synonyms) # post)" by simp
    with d have "(canonical, synonyms) \<in> set dict" by simp
    with a assms(2) show False by blast
  qed
  with assms(1) show ?thesis by (simp add: normalizeField_run)
qed

text \<open>
  Claim C8, amended. \<open>normalizeField\<close> returns \<^verbatim>\<open>null\<close> for \<^verbatim>\<open>null\<close> and also for the empty string
  (the guard \<^verbatim>\<open>!value\<close>). For a non-empty value: when some entry of the table answers it
  (its label or one of its synonyms equals the trimmed, lower-cased value without regard to
  case), the result is the label of the first such entry in the table's order; when no
  entry answers it, the result is the value itself, untrimmed and in its own case. There is
  no failing branch.
\<close>

theorem normalizeField_contract:
  "normalizeField None dict = None \<and>
   normalizeField (Some []) dict = None \<and>
   (v \<noteq> [] \<and> (\<exists>e\<in>set dict. answers v e) \<longrightarrow>
      (\<exists>pre canonical synonyms post.
         dict = pre @ (canonical, synonyms) # post \<and> answers v (canonical, synonyms) \<and>
         (\<forall>e\<in>set pre. \<not> answers v e) \<and>
         normalizeField (Some v) dict = Some canonical)) \<and>
   (v \<noteq> [] \<and> (\<forall>e\<in>set dict. \<not> answers v e) \<longrightarrow> normalizeField (Some v) dict = Some v)"
proof -
  have null: "normalizeField None dict = None"
    by (simp add: normalizeField_def truthy_def)
  have empty: "normalizeField (Some []) dict = None"
    by (simp add: normalizeField_def truthy_def)
  from null empty normalizeField_hit [of v dict] normalizeField_miss [of v dict]
  show ?thesis by blast
qed

text \<open>
  The contract at \<^verbatim>\<open>" Wood "\<close>, which the part table answers with \<^verbatim>\<open>trunk\<close>, and at
  \<^verbatim>\<open>"Oak"\<close>, which no entry answers.
\<close>

theorem normalizeField_contract_witness:
  "'' Wood '' \<noteq> [] \<and> list_ex (answers '' Wood '') partUsedSynonyms \<and>
   normalizeField (Some '' Wood '') partUsedSynonyms = Some ''trunk'' \<and>
   ''Oak'' \<noteq> [] \<and> \<not> list_ex (answers ''Oak'') partUsedSynonyms \<and>
   normalizeField (Some ''Oak'') partUsedSynonyms = Some ''Oak''"
proof -
  have a: "list_ex (answers '' Wood '') partUsedSynonyms"
    by (simp add: answers_def partUsedSynonyms_def string_eval)
  have b: "\<not> list_ex (answers ''Oak'') partUsedSynonyms"
    by (simp add: answers_def partUsedSynonyms_def string_eval)
  from b have "normalizeField (Some ''Oak'') partUsedSynonyms = Some ''Oak''"
    using normalizeField_contract [of partUsedSynonyms "''Oak''"]
    by (simp add: list_ex_iff)
  moreover have "normalizeField (Some '' Wood '') partUsedSynonyms = Some ''trunk''"
    by (simp add: normalizeField_def partUsedSynonyms_def string_eval)
  ultimately show ?thesis using a b by simp
qed

text \<open>
  Claim C8 as stated fails at the empty string: it is a string, no entry of the part
  table answers it, and the result is \<^verbatim>\<open>null\<close>, not the input.
\<close>

theorem normalizeField_empty_counterexample:
  "\<not> list_ex (answers []) partUsedSynonyms \<and>
   normalizeField (Some []) partUsedSynonyms = None \<and>
   normalizeField (Some []) partUsedSynonyms \<noteq> Some []"
  by (simp add: answers_def partUsedSynonyms_def normalizeField_def string_eval)

text \<open>
  Claim C9, amended. The normalizer is idempotent on every table each of whose labels it
  maps to itself; the two tables of the handler are such tables.
\<close>

theorem normalizeField_idempotent:
  "(\<forall>e\<in>set dict. normalizeField (Some (fst e)) dict = Some (fst e)) \<Longrightarrow>
   normalizeField (normalizeField x dict) dict = normalizeField x dict"
proof (cases "truthy x")
  case False
  then show ?thesis by (simp add: normalizeField_def truthy_def)
next
  case True
  assume fixed: "\<forall>e\<in>set dict. normalizeField (Some (fst e)) dict = Some (fst e)"
  from True obtain v where x: "x = Some v" and v: "v \<noteq> []"
    by (auto simp: truthy_def split: option.splits)
  let ?r = "normalizeLoop v (toLowerCase (trim v)) dict"
  have r: "normalizeField x dict = Some ?r"
    using True by (simp add: normalizeField_def x)
  show ?thesis
  proof (cases "?r = v")
    case True
    with r show ?thesis by (simp add: x)
  next
    case False
    then have "?r \<in> fst ` set dict" by (rule normalizeLoop_range)
    with fixed have "normalizeField (Some ?r) dict = Some ?r" by auto
    with r show ?thesis by simp
  qed
qed

text \<open>Every label of the handler's two tables is a fixed point of the normalizer.\<close>

lemma labels_fixed:
  "list_all (\<lambda>e. normalizeField (Some (fst e)) ecosystemServiceSynonyms = Some (fst e))
     ecosystemServiceSynonyms"
  "list_all (\<lambda>e. normalizeField (Some (fst e)) partUsedSynonyms = Some (fst e)) partUsedSynonyms"
  by (simp_all add: ecosystemServiceSynonyms_def partUsedSynonyms_def normalizeField_def
      string_eval)

text \<open>Idempotence on the service table and on the part table, for every input.\<close>

theorem normalizeField_idempotent_witness:
  "\<forall>x. normalizeField (normalizeField x ecosystemServiceSynonyms) ecosystemServiceSynonyms =
          normalizeField x ecosystemServiceSynonyms \<and>
        normalizeField (normalizeField x partUsedSynonyms) partUsedSynonyms =
          normalizeField x partUsedSynonyms"
  using normalizeField_idempotent [of ecosystemServiceSynonyms]
    normalizeField_idempotent [of partUsedSynonyms] labels_fixed
  by (simp add: list_all_iff)

text \<open>
  Claim C9 as stated fails on a table where a label is also a synonym of an earlier
  entry: \<^verbatim>\<open>trunk\<close> normalizes to \<^verbatim>\<open>wood\<close>, and \<^verbatim>\<open>wood\<close> to \<^verbatim>\<open>Timber\<close>.
\<close>

theorem normalizeField_idempotent_counterexample:
  "normalizeField (Some ''trunk'') [(''Timber'', [''wood'']), (''wood'', [''trunk''])] = Some ''wood'' \<and>
   normalizeField (normalizeField (Some ''trunk'') [(''Timber'', [''wood'']), (''wood'', [''trunk''])])
     [(''Timber'', [''wood'']), (''wood'', [''trunk''])] = Some ''Timber''"
  by (simp add: normalizeField_def string_eval)


section \<open>Properties of the heuristic parser\<close>

lemma matchAt_letters:
  "matchAt pre suf s = Some w \<Longrightarrow> w \<noteq> [] \<and> (\<forall>c\<in>set w. isLowerAZ c)"
  by (auto simp: matchAt_def Let_def split: if_splits dest: set_takeWhileD)

lemma regexMatch_letters:
  "regexMatch pre suf s = Some w \<Longrightarrow> w \<noteq> [] \<and> (\<forall>c\<in>set w. isLowerAZ c)"
proof (induction s)
  case Nil
  then show ?case using matchAt_letters [of pre suf "[]" w] by simp
next
  case (Cons c cs)
  then show ?case
    using matchAt_letters [of pre suf "c # cs" w] by (auto split: option.splits)
qed

lemma lowerChar_letter: "isLowerAZ c \<Longrightarrow> lowerChar c = c"
  by (cases c) (auto simp: isLowerAZ_def isUpper_def)

lemma letter_not_space: "isLowerAZ c \<Longrightarrow> \<not> isWhiteSpace c"
  by (auto simp: isLowerAZ_def isWhiteSpace_def)

lemma toLowerCase_letters: "\<forall>c\<in>set w. isLowerAZ c \<Longrightarrow> toLowerCase w = w"
  by (simp add: toLowerCase_def lowerChar_letter map_idI)

lemma dropWhile_none: "\<forall>c\<in>set w. \<not> P c \<Longrightarrow> dropWhile P w = w"
  by (cases w) auto

lemma trim_letters: "\<forall>c\<in>set w. isLowerAZ c \<Longrightarrow> trim w = w"
  by (simp add: trim_def dropWhile_none letter_not_space)

lemma find_as_loop:
  "\<forall>e\<in>set dict. \<forall>syn\<in>set (snd e). toLowerCase syn = syn \<Longrightarrow>
   (case find (\<lambda>(canonical, synonyms). toLowerCase canonical = w \<or> w \<in> set synonyms) dict of
      Some (canonical, synonyms) \<Rightarrow> canonical
    | None \<Rightarrow> w) = normalizeLoop w w dict"
proof (induction dict)
  case Nil
  show ?case by simp
next
  case (Cons e dict)
  obtain c syns where e: "e = (c, syns)" by (cases e)
  from Cons.prems have lower: "\<forall>syn\<in>set syns. toLowerCase syn = syn"
    by (simp add: e)
  then have "list_ex (\<lambda>syn. toLowerCase syn = w) syns = (w \<in> set syns)"
    by (auto simp: list_ex_iff)
  with Cons show ?case by (simp add: e)
qed

lemma partUsedSynonyms_lower:
  "\<forall>e\<in>set partUsedSynonyms. \<forall>syn\<in>set (snd e). toLowerCase syn = syn"
  by (simp add: partUsedSynonyms_def toLowerCase_def isUpper_def)

lemma normalizedPart_normalizes:
  assumes "w \<noteq> []" "\<forall>c\<in>set w. isLowerAZ c"
  shows "Some (normalizedPart w) = normalizeField (Some w) partUsedSynonyms"
proof -
  have "normalizedPart w = normalizeLoop w w partUsedSynonyms"
    unfolding normalizedPart_def by (rule find_as_loop [OF partUsedSynonyms_lower])
  with assms show ?thesis
    by (simp add: normalizeField_def truthy_def toLowerCase_letters trim_letters)
qed

lemma firstPattern_at:
  "i < length ps \<Longrightarrow>
   regexMatch (fst (ps ! i)) (snd (ps ! i)) s = Some w \<Longrightarrow>
   \<forall>j<i. regexMatch (fst (ps ! j)) (snd (ps ! j)) s = None \<Longrightarrow>
   firstPattern ps s = Some w"
proof (induction ps arbitrary: i)
  case Nil
  then show ?case by simp
next
  case (Cons p ps)
  obtain pre suf where p: "p = (pre, suf)" by (cases p)
  show ?case
  proof (cases i)
    case 0
    with Cons.prems(2) have m: "regexMatch pre suf s = Some w" by (simp add: p)
    then have "w \<noteq> []" using regexMatch_letters by blast
    with m show ?thesis by (simp add: p)
  next
    case (Suc k)
    from Cons.prems(3) Suc have "regexMatch pre suf s = None"
      by (auto simp: p dest: spec [of _ 0])
    then have step: "firstPattern (p # ps) s = firstPattern ps s" by (simp add: p)
    have "firstPattern ps s = Some w"
    proof (rule Cons.IH)
      show "k < length ps" using Cons.prems(1) Suc by simp
      show "regexMatch (fst (ps ! k)) (snd (ps ! k)) s = Some w"
        using Cons.prems(2) Suc by simp
      show "\<forall>j<k. regexMatch (fst (ps ! j)) (snd (ps ! j)) s = None"
      proof (intro allI impI)
        fix j assume "j < k"
        then have "Suc j < i" using Suc by simp
        with Cons.prems(3) have
          "regexMatch (fst ((p # ps) ! Suc j)) (snd ((p # ps) ! Suc j)) s = None" by blast
        then show "regexMatch (fst (ps ! j)) (snd (ps ! j)) s = None" by simp
      qed
    qed
    with step show ?thesis by simp
  qed
qed

lemma scanSynonyms_find:
  "scanSynonyms dict s = map_option fst (find (mentions s) dict)"
  by (induction dict) (auto simp: mentions_def)

lemma exclusivityPhrase_iff:
  "exclusivityPhrase s = (firstPattern onlyPartsUsedPatterns s \<noteq> None)"
proof -
  have "list_ex (\<lambda>p. regexMatch (fst p) (snd p) s \<noteq> None) ps = (firstPattern ps s \<noteq> None)"
    for ps
  proof (induction ps)
    case Nil
    show ?case by simp
  next
    case (Cons p ps)
    obtain pre suf where p: "p = (pre, suf)" by (cases p)
    show ?case
    proof (cases "regexMatch pre suf s")
      case None
      with Cons show ?thesis by (simp add: p)
    next
      case (Some w)
      then have "w \<noteq> []" using regexMatch_letters by blast
      with Some show ?thesis by (simp add: p)
    qed
  qed
  then show ?thesis by (simp add: exclusivityPhrase_def)
qed

lemmas parser_eval = heuristicParse_def toLowerCase_def isUpper_def isLowerAZ_def
  ecosystemServiceSynonyms_def partUsedSynonyms_def speciesSynonyms_def
  onlyPartsUsedPatterns_def matchAt_def normalizedPart_def truthy_def mentions_def
  exclusivityPhrase_def

text \<open>
  Claim C6, amended. The heuristic parser sets \<^verbatim>\<open>ecosystemService\<close> to the label of the first
  entry of the service table that the lower-cased question mentions (to \<^verbatim>\<open>null\<close> when there
  is none). Unless the question holds an exclusivity phrase, \<^verbatim>\<open>partUsed\<close> is \<^verbatim>\<open>null\<close> when a
  service was found and otherwise the label of the first entry of the part table that the
  question mentions. So a question that mentions a service and a part, and holds no
  exclusivity phrase, yields \<^verbatim>\<open>ecosystemService\<close> set and \<^verbatim>\<open>partUsed\<close> \<^verbatim>\<open>null\<close>.
\<close>

theorem heuristic_precedence:
  "ecosystemService (query (heuristicParse question)) =
     map_option fst (find (mentions (toLowerCase question)) ecosystemServiceSynonyms) \<and>
   (\<not> exclusivityPhrase (toLowerCase question) \<longrightarrow>
      partUsed (query (heuristicParse question)) =
        (if list_ex (mentions (toLowerCase question)) ecosystemServiceSynonyms then None
         else map_option fst (find (mentions (toLowerCase question)) partUsedSynonyms))) \<and>
   (list_ex (mentions (toLowerCase question)) ecosystemServiceSynonyms \<and>
    list_ex (mentions (toLowerCase question)) partUsedSynonyms \<and>
    \<not> exclusivityPhrase (toLowerCase question) \<longrightarrow>
      ecosystemService (query (heuristicParse question)) \<noteq> None \<and>
      partUsed (query (heuristicParse question)) = None)"
proof -
  let ?lq = "toLowerCase question"
  let ?svc = "scanSynonyms ecosystemServiceSynonyms ?lq"
  have service: "ecosystemService (query (heuristicParse question)) = ?svc"
    by (simp add: heuristicParse_def Let_def split: option.splits)
  have labels: "\<forall>e\<in>set ecosystemServiceSynonyms. fst e \<noteq> []"
    by (simp add: ecosystemServiceSynonyms_def)
  have hit: "list_ex (mentions ?lq) ecosystemServiceSynonyms = truthy ?svc"
  proof (cases "find (mentions ?lq) ecosystemServiceSynonyms")
    case None
    then have "\<not> list_ex (mentions ?lq) ecosystemServiceSynonyms"
      by (auto simp: find_None_iff list_ex_iff)
    moreover from None have "?svc = None" by (simp add: scanSynonyms_find)
    ultimately show ?thesis by (simp add: truthy_def)
  next
    case (Some e)
    then have e: "e \<in> set ecosystemServiceSynonyms" "mentions ?lq e"
      by (auto simp: find_Some_iff)
    then have "list_ex (mentions ?lq) ecosystemServiceSynonyms"
      by (auto simp: list_ex_iff)
    moreover from Some have "?svc = Some (fst e)" by (simp add: scanSynonyms_find)
    moreover from e labels have "fst e \<noteq> []" by blast
    ultimately show ?thesis by (simp add: truthy_def)
  qed
  have part: "partUsed (query (heuristicParse question)) =
      (if list_ex (mentions ?lq) ecosystemServiceSynonyms then None
       else map_option fst (find (mentions ?lq) partUsedSynonyms))"
    if "\<not> exclusivityPhrase ?lq"
  proof -
    from that have "firstPattern onlyPartsUsedPatterns ?lq = None"
      by (simp add: exclusivityPhrase_iff)
    then show ?thesis
      by (simp add: heuristicParse_def Let_def hit scanSynonyms_find)
  qed
  have both: "ecosystemService (query (heuristicParse question)) \<noteq> None"
    if "list_ex (mentions ?lq) ecosystemServiceSynonyms"
    using that hit service by (auto simp: truthy_def split: option.splits)
  from service part both show ?thesis
    by (simp add: scanSynonyms_find)
qed

text \<open>
  A question that mentions the service \<^verbatim>\<open>Food\<close> (\<^verbatim>\<open>edible\<close>) and the part \<^verbatim>\<open>leaves\<close> and holds
  no exclusivity phrase.
\<close>

theorem heuristic_precedence_witness:
  "list_ex (mentions (toLowerCase ''Which trees have edible leaves?'')) ecosystemServiceSynonyms \<and>
   list_ex (mentions (toLowerCase ''Which trees have edible leaves?'')) partUsedSynonyms \<and>
   \<not> exclusivityPhrase (toLowerCase ''Which trees have edible leaves?'') \<and>
   ecosystemService (query (heuristicParse ''Which trees have edible leaves?'')) = Some ''Food'' \<and>
   partUsed (query (heuristicParse ''Which trees have edible leaves?'')) = None"
proof -
  have a: "list_ex (mentions (toLowerCase ''Which trees have edible leaves?''))
      ecosystemServiceSynonyms"
    by (simp add: parser_eval)
  have b: "list_ex (mentions (toLowerCase ''Which trees have edible leaves?'')) partUsedSynonyms"
    by (simp add: parser_eval)
  have c: "\<not> exclusivityPhrase (toLowerCase ''Which trees have edible leaves?'')"
    by (simp add: parser_eval)
  have d: "map_option fst (find (mentions (toLowerCase ''Which trees have edible leaves?''))
      ecosystemServiceSynonyms) = Some ''Food''"
    by (simp add: parser_eval)
  from a b c d heuristic_precedence [of "''Which trees have edible leaves?''"]
  show ?thesis by simp
qed

text \<open>
  Claim C6 as stated fails when the question also holds an exclusivity phrase: the
  question mentions a service and a part, and \<^verbatim>\<open>partUsed\<close> is set, by the fourth step.
\<close>

theorem heuristic_precedence_counterexample:
  "list_ex (mentions (toLowerCase ''Only the leaves are used for food'')) ecosystemServiceSynonyms \<and>
   list_ex (mentions (toLowerCase ''Only the leaves are used for food'')) partUsedSynonyms \<and>
   ecosystemService (query (heuristicParse ''Only the leaves are used for food'')) = Some ''Food'' \<and>
   partUsed (query (heuristicParse ''Only the leaves are used for food'')) = Some ''leaves''"
  by (simp add: parser_eval)

text \<open>
  Claim C7. When pattern number \<open>i\<close> of the fixed list matches the lower-cased question
  with captured token \<open>w\<close> and no earlier pattern matches, the heuristic parser sets
  \<^verbatim>\<open>only\<close> to \<^verbatim>\<open>true\<close> and \<^verbatim>\<open>partUsed\<close> to the normalized form of \<open>w\<close>, which is \<open>w\<close> itself
  when no entry of the part table answers it; later patterns play no role, and
  \<^verbatim>\<open>ecosystemService\<close> is what the service scan found, whatever the patterns do. The
  question \<^verbatim>\<open>Show me trees that only the leaves are used.\<close> yields \<^verbatim>\<open>only = true\<close> and
  \<^verbatim>\<open>partUsed = "leaves"\<close>.
\<close>

theorem heuristic_exclusivity:
  "(i < length onlyPartsUsedPatterns \<and>
    regexMatch (fst (onlyPartsUsedPatterns ! i)) (snd (onlyPartsUsedPatterns ! i))
      (toLowerCase question) = Some w \<and>
    (\<forall>j<i. regexMatch (fst (onlyPartsUsedPatterns ! j)) (snd (onlyPartsUsedPatterns ! j))
      (toLowerCase question) = None) \<longrightarrow>
      only (heuristicParse question) = Some True \<and>
      partUsed (query (heuristicParse question)) = normalizeField (Some w) partUsedSynonyms \<and>
      (\<not> list_ex (answers w) partUsedSynonyms \<longrightarrow>
         partUsed (query (heuristicParse question)) = Some w) \<and>
      ecosystemService (query (heuristicParse question)) =
        scanSynonyms ecosystemServiceSynonyms (toLowerCase question)) \<and>
   only (heuristicParse ''Show me trees that only the leaves are used.'') = Some True \<and>
   partUsed (query (heuristicParse ''Show me trees that only the leaves are used.'')) =
     Some ''leaves''"
proof -
  have general:
    "only (heuristicParse question) = Some True \<and>
     partUsed (query (heuristicParse question)) = normalizeField (Some w) partUsedSynonyms \<and>
     (\<not> list_ex (answers w) partUsedSynonyms \<longrightarrow>
        partUsed (query (heuristicParse question)) = Some w) \<and>
     ecosystemService (query (heuristicParse question)) =
       scanSynonyms ecosystemServiceSynonyms (toLowerCase question)"
    if i: "i < length onlyPartsUsedPatterns"
      and m: "regexMatch (fst (onlyPartsUsedPatterns ! i)) (snd (onlyPartsUsedPatterns ! i))
        (toLowerCase question) = Some w"
      and first: "\<forall>j<i. regexMatch (fst (onlyPartsUsedPatterns ! j))
        (snd (onlyPartsUsedPatterns ! j)) (toLowerCase question) = None"
  proof -
    from i m first have fp: "firstPattern onlyPartsUsedPatterns (toLowerCase question) = Some w"
      by (rule firstPattern_at)
    from m have w: "w \<noteq> []" "\<forall>c\<in>set w. isLowerAZ c"
      using regexMatch_letters by blast+
    then have norm: "Some (normalizedPart w) = normalizeField (Some w) partUsedSynonyms"
      by (rule normalizedPart_normalizes)
    have raw: "normalizeField (Some w) partUsedSynonyms = Some w"
      if "\<not> list_ex (answers w) partUsedSynonyms"
      using that w(1) by (intro normalizeField_miss) (simp_all add: list_ex_iff)
    from fp norm raw show ?thesis
      by (simp add: heuristicParse_def Let_def)
  qed
  have example: "only (heuristicParse ''Show me trees that only the leaves are used.'') = Some True \<and>
     partUsed (query (heuristicParse ''Show me trees that only the leaves are used.'')) =
       Some ''leaves''"
    by (simp add: parser_eval)
  from general example show ?thesis by blast
qed

text \<open>
  A question that the first two patterns do not match and the third one does, with the
  token \<^verbatim>\<open>bark\<close>.
\<close>

theorem heuristic_exclusivity_witness:
  "regexMatch (fst (onlyPartsUsedPatterns ! 0)) (snd (onlyPartsUsedPatterns ! 0))
     (toLowerCase ''Parts used is only Bark'') = None \<and>
   regexMatch (fst (onlyPartsUsedPatterns ! 1)) (snd (onlyPartsUsedPatterns ! 1))
     (toLowerCase ''Parts used is only Bark'') = None \<and>
   regexMatch (fst (onlyPartsUsedPatterns ! 2)) (snd (onlyPartsUsedPatterns ! 2))
     (toLowerCase ''Parts used is only Bark'') = Some ''bark'' \<and>
   only (heuristicParse ''Parts used is only Bark'') = Some True \<and>
   partUsed (query (heuristicParse ''Parts used is only Bark'')) = Some ''bark''"
proof -
  have p0: "regexMatch (fst (onlyPartsUsedPatterns ! 0)) (snd (onlyPartsUsedPatterns ! 0))
     (toLowerCase ''Parts used is only Bark'') = None"
    by (simp add: parser_eval)
  have p1: "regexMatch (fst (onlyPartsUsedPatterns ! 1)) (snd (onlyPartsUsedPatterns ! 1))
     (toLowerCase ''Parts used is only Bark'') = None"
    by (simp add: parser_eval)
  have p2: "regexMatch (fst (onlyPartsUsedPatterns ! 2)) (snd (onlyPartsUsedPatterns ! 2))
     (toLowerCase ''Parts used is only Bark'') = Some ''bark''"
    by (simp add: parser_eval)
  have earlier: "\<forall>j<2. regexMatch (fst (onlyPartsUsedPatterns ! j))
      (snd (onlyPartsUsedPatterns ! j)) (toLowerCase ''Parts used is only Bark'') = None"
    using p0 p1 by (auto simp: less_Suc_eq numeral_2_eq_2)
  have len: "2 < length onlyPartsUsedPatterns"
    by (simp add: onlyPartsUsedPatterns_def)
  have norm: "normalizeField (Some ''bark'') partUsedSynonyms = Some ''bark''"
    by (simp add: normalizeField_def partUsedSynonyms_def string_eval)
  from heuristic_exclusivity [of 2 "''Parts used is only Bark''" "''bark''"] len p2 earlier norm
  have "only (heuristicParse ''Parts used is only Bark'') = Some True \<and>
     partUsed (query (heuristicParse ''Parts used is only Bark'')) = Some ''bark''"
    by simp
  with p0 p1 p2 show ?thesis by simp
qed


section \<open>Properties of the extracted query\<close>

lemma str_includes_empty: "str_includes s []"
  by (cases s) simp_all

lemma find_member: "find P xs = Some x \<Longrightarrow> x \<in> set xs"
  by (induction xs) (auto split: if_splits)

lemma service_labels_nonempty: "\<forall>e\<in>set ecosystemServiceSynonyms. fst e \<noteq> []"
  by (simp add: ecosystemServiceSynonyms_def)

lemma part_labels_nonempty: "\<forall>e\<in>set partUsedSynonyms. fst e \<noteq> []"
  by (simp add: partUsedSynonyms_def)

lemma normalizeField_nonempty:
  assumes "\<forall>e\<in>set dict. fst e \<noteq> []" "normalizeField x dict = Some v"
  shows "v \<noteq> []"
proof -
  from assms(2) obtain u where u: "x = Some u" "u \<noteq> []"
    and v: "v = normalizeLoop u (toLowerCase (trim u)) dict"
    by (auto simp: normalizeField_def truthy_def split: if_splits option.splits)
  show ?thesis
  proof (cases "v = u")
    case True
    with u show ?thesis by simp
  next
    case False
    with v have "v \<in> fst ` set dict" using normalizeLoop_range by blast
    with assms(1) show ?thesis by auto
  qed
qed

lemma scanSynonyms_label: "scanSynonyms dict s = Some l \<Longrightarrow> l \<in> fst ` set dict"
  by (induction dict) (auto split: if_splits)

lemma firstPattern_nonempty: "firstPattern ps s = Some w \<Longrightarrow> w \<noteq> []"
  by (induction ps) (auto split: option.splits if_splits)

lemma normalizedPart_nonempty:
  assumes "w \<noteq> []"
  shows "normalizedPart w \<noteq> []"
proof (cases "find (\<lambda>(canonical, synonyms). toLowerCase canonical = w \<or> w \<in> set synonyms)
    partUsedSynonyms")
  case None
  with assms show ?thesis by (simp add: normalizedPart_def)
next
  case (Some e)
  then have "e \<in> set partUsedSynonyms" by (rule find_member)
  with part_labels_nonempty have "fst e \<noteq> []" by blast
  with Some show ?thesis by (cases e) (simp add: normalizedPart_def)
qed

lemma heuristic_service_nonempty:
  assumes "ecosystemService (query (heuristicParse question)) = Some v"
  shows "v \<noteq> []"
proof -
  from assms have "scanSynonyms ecosystemServiceSynonyms (toLowerCase question) = Some v"
    by (simp add: heuristicParse_def Let_def split: option.splits)
  then have "v \<in> fst ` set ecosystemServiceSynonyms" by (rule scanSynonyms_label)
  with service_labels_nonempty show ?thesis by auto
qed

lemma heuristic_part_nonempty:
  assumes "partUsed (query (heuristicParse question)) = Some v"
  shows "v \<noteq> []"
proof (cases "firstPattern onlyPartsUsedPatterns (toLowerCase question)")
  case None
  with assms have "scanSynonyms partUsedSynonyms (toLowerCase question) = Some v"
    by (simp add: heuristicParse_def Let_def split: if_splits)
  then have "v \<in> fst ` set partUsedSynonyms" by (rule scanSynonyms_label)
  with part_labels_nonempty show ?thesis by auto
next
  case (Some w)
  then have "w \<noteq> []" by (rule firstPattern_nonempty)
  then have "normalizedPart w \<noteq> []" by (rule normalizedPart_nonempty)
  with Some assms show ?thesis by (simp add: heuristicParse_def Let_def)
qed

lemma extract_service_nonempty:
  "ecosystemService (query (extractQuery outcome question)) = Some v \<Longrightarrow> v \<noteq> []"
  by (cases outcome)
    (auto simp: extractQuery_def
      dest: heuristic_service_nonempty normalizeField_nonempty [OF service_labels_nonempty])

lemma extract_part_nonempty:
  "partUsed (query (extractQuery outcome question)) = Some v \<Longrightarrow> v \<noteq> []"
  by (cases outcome)
    (auto simp: extractQuery_def
      dest: heuristic_part_nonempty normalizeField_nonempty [OF part_labels_nonempty])

section \<open>Properties of the filters\<close>

lemma soleService_spec:
  "soleService v entry = (\<exists>s. EcosystemService entry = [s] \<and> sameIgnoringCase s v)"
  by (cases "EcosystemService entry") (auto simp: soleService_def sameIgnoringCase_iff)

lemma solePart_spec:
  "solePart v entry = (\<exists>p. PartsUsed entry = [p] \<and> sameIgnoringCase p v)"
  by (cases "PartsUsed entry") (auto simp: solePart_def sameIgnoringCase_iff)

lemma someService_spec: "someService v entry = anyServiceHas v entry"
  by (simp add: someService_def anyServiceHas_def list_ex_iff includes_occurs)

lemma somePart_spec: "somePart v entry = anyPartHas v entry"
  by (simp add: somePart_def anyPartHas_def list_ex_iff includes_occurs)

lemma onlyCallback_spec:
  assumes "\<And>v. ecosystemService q = Some v \<Longrightarrow> v \<noteq> []"
    and "\<And>v. partUsed q = Some v \<Longrightarrow> v \<noteq> []"
  shows "onlyCallback q = specExclusive q"
proof
  fix entry :: ScoredTreeSpecies
  show "onlyCallback q entry = specExclusive q entry"
    using assms
    by (cases "ecosystemService q"; cases "partUsed q")
      (simp_all add: onlyCallback_def specExclusive_def truthy_def soleService_spec
        solePart_spec)
qed

lemma defaultCallback_spec:
  assumes "\<And>v. ecosystemService q = Some v \<Longrightarrow> v \<noteq> []"
    and "\<And>v. partUsed q = Some v \<Longrightarrow> v \<noteq> []"
  shows "defaultCallback q = specDefault q"
proof
  fix entry :: ScoredTreeSpecies
  have sp: "(\<not> truthy (species q) \<or>
      str_includes (toLowerCase (Species entry)) (toLowerCase (the (species q)))) =
    (\<forall>v. species q = Some v \<longrightarrow> occursIgnoringCase v (Species entry))"
    by (cases "species q") (auto simp: truthy_def includes_occurs occursIgnoringCase_empty)
  show "defaultCallback q entry = specDefault q entry"
    using assms unfolding defaultCallback_def specDefault_def Let_def sp
    by (cases "ecosystemService q"; cases "partUsed q")
      (simp_all add: truthy_def someService_spec somePart_spec)
qed

lemma onlyAgain_primary:
  "onlyAgain ex (primaryBranch ex dataWithEmbeddings scored) =
   primaryBranch ex dataWithEmbeddings scored"
proof (cases "truthyBool (only ex)")
  case False
  then show ?thesis by (simp add: onlyAgain_def)
next
  case True
  have keep: "filter P (filter Q xs) = filter Q xs" if "\<And>x. Q x \<Longrightarrow> P x"
    for P Q :: "ScoredTreeSpecies \<Rightarrow> bool" and xs
    using that by (induction xs) auto
  have s: "filter (soleService (the (ecosystemService (query ex))))
      (filter (onlyCallback (query ex)) dataWithEmbeddings) =
      filter (onlyCallback (query ex)) dataWithEmbeddings"
    if "truthy (ecosystemService (query ex))"
    using that by (intro keep) (simp add: onlyCallback_def Let_def split: if_splits)
  have p: "filter (solePart (the (partUsed (query ex))))
      (filter (onlyCallback (query ex)) dataWithEmbeddings) =
      filter (onlyCallback (query ex)) dataWithEmbeddings"
    if "truthy (partUsed (query ex))"
    using that by (intro keep) (simp add: onlyCallback_def Let_def split: if_splits)
  from True s p show ?thesis
    by (simp add: onlyAgain_def primaryBranch_def Let_def)
qed

lemma andLogic_filter:
  "andLogic a xs = filter (\<lambda>entry. andServicePredicate a entry \<and> andPartPredicate a entry) xs"
proof (cases a)
  case None
  then show ?thesis
    by (simp add: andLogic_def andServicePredicate_def andPartPredicate_def)
next
  case (Some andObj)
  have s: "andServicePredicate a = (\<lambda>entry. \<not> truthy (and_ecosystemService andObj) \<or>
      someService (the (and_ecosystemService andObj)) entry)"
    by (cases "and_ecosystemService andObj")
      (auto simp: Some andServicePredicate_def truthy_def someService_spec)
  have p: "andPartPredicate a = (\<lambda>entry. \<not> truthy (and_partUsed andObj) \<or>
      somePart (the (and_partUsed andObj)) entry)"
    by (cases "and_partUsed andObj")
      (auto simp: Some andPartPredicate_def truthy_def somePart_spec)
  show ?thesis
    unfolding s p
    by (auto simp: Some andLogic_def Let_def conj_commute intro: filter_cong)
qed

section \<open>Properties of the arithmetic\<close>

text \<open>
  Rounded results are doubles, the rounded difference of two doubles has the sign of the
  exact difference, and a zero vector makes the cosine \<^verbatim>\<open>NaN\<close>.
\<close>

lemma pow2_powr: "pow2 k = 2 powr (of_int k)"
proof (cases "0 \<le> k")
  case True
  then have "2 powr (of_int k) = (2::real) ^ nat k"
    by (simp add: powr_realpow [symmetric])
  with True show ?thesis by (simp add: pow2_def)
next
  case False
  then have "2 powr (of_int k) = 1 / (2::real) powr (of_int (- k))"
    by (simp add: powr_minus_divide)
  also from False have "(2::real) powr (of_int (- k)) = 2 ^ nat (- k)"
    by (simp add: powr_realpow [symmetric])
  finally show ?thesis using False by (simp add: pow2_def)
qed

lemma pow2_pos: "0 < pow2 k"
  by (simp add: pow2_powr)

lemma pow2_add: "pow2 (j + k) = pow2 j * pow2 k"
  by (simp add: pow2_powr powr_add)

lemma pow2_mono: "j \<le> k \<Longrightarrow> pow2 j \<le> pow2 k"
  by (simp add: pow2_powr)

lemma pow2_nat: "0 \<le> k \<Longrightarrow> pow2 k = of_int (2 ^ nat k)"
  by (simp add: pow2_def)

lemma binade_low: "- 1022 \<le> binade x"
  by (simp add: binade_def)

lemma roundToDouble_grid: "onGrid (roundToDouble x)"
proof (cases "x = 0")
  case True
  then have "roundToDouble x = of_int 0 * pow2 (- 1074)" by (simp add: roundToDouble_def)
  then show ?thesis unfolding onGrid_def by blast
next
  case False
  define k where "k = binade x - 52"
  define m where "m = roundHalfEven (x / pow2 k)"
  have k: "0 \<le> k + 1074" using binade_low [of x] by (simp add: k_def)
  have "pow2 k = pow2 ((k + 1074) + (- 1074))" by simp
  also have "\<dots> = pow2 (k + 1074) * pow2 (- 1074)" by (rule pow2_add)
  also have "pow2 (k + 1074) = of_int (2 ^ nat (k + 1074))" using k by (rule pow2_nat)
  finally have "pow2 k * of_int m = of_int (2 ^ nat (k + 1074) * m) * pow2 (- 1074)"
    by simp
  moreover from False have "roundToDouble x = pow2 k * of_int m"
    by (simp add: roundToDouble_def k_def m_def)
  ultimately show ?thesis unfolding onGrid_def by metis
qed

lemma onGrid_zero: "onGrid 0"
proof -
  have "(0::real) = of_int 0 * pow2 (- 1074)" by simp
  then show ?thesis unfolding onGrid_def by blast
qed

lemma onGrid_diff: "onGrid x \<Longrightarrow> onGrid y \<Longrightarrow> onGrid (x - y)"
proof -
  assume "onGrid x" "onGrid y"
  then obtain n m :: int where "x = of_int n * pow2 (- 1074)" "y = of_int m * pow2 (- 1074)"
    unfolding onGrid_def by blast
  then have "x - y = of_int (n - m) * pow2 (- 1074)" by (simp add: algebra_simps)
  then show ?thesis unfolding onGrid_def by blast
qed

lemma onGrid_pos: "onGrid z \<Longrightarrow> 0 < z \<Longrightarrow> pow2 (- 1074) \<le> z"
proof -
  assume "onGrid z" "0 < z"
  then obtain n :: int where z: "z = of_int n * pow2 (- 1074)" unfolding onGrid_def by blast
  with \<open>0 < z\<close> pow2_pos [of "- 1074"] have "0 < (of_int n :: real)"
    by (simp add: zero_less_mult_iff)
  then have "1 \<le> (of_int n :: real)" by simp
  then have "1 * pow2 (- 1074) \<le> of_int n * pow2 (- 1074)"
    using pow2_pos [of "- 1074"] by (intro mult_right_mono) simp_all
  with z show ?thesis by simp
qed

lemma onGrid_neg: "onGrid z \<Longrightarrow> z < 0 \<Longrightarrow> z \<le> - pow2 (- 1074)"
proof -
  assume g: "onGrid z" and "z < 0"
  from onGrid_diff [OF onGrid_zero g] have "onGrid (- z)" by simp
  with \<open>z < 0\<close> have "pow2 (- 1074) \<le> - z" by (intro onGrid_pos) simp_all
  then show ?thesis by simp
qed

lemma ulp_below:
  assumes "pow2 (- 1074) \<le> \<bar>z\<bar>"
  shows "pow2 (binade z - 52) \<le> \<bar>z\<bar>"
proof (cases "- 1022 \<le> \<lfloor>log 2 \<bar>z\<bar>\<rfloor>")
  case True
  from assms pow2_pos [of "- 1074"] have pos: "0 < \<bar>z\<bar>" by linarith
  from True have b: "binade z = \<lfloor>log 2 \<bar>z\<bar>\<rfloor>" by (simp add: binade_def)
  have "pow2 (binade z - 52) \<le> pow2 (binade z)" by (rule pow2_mono) simp
  also have "\<dots> = 2 powr (of_int \<lfloor>log 2 \<bar>z\<bar>\<rfloor>)" by (simp add: b pow2_powr)
  also have "\<dots> \<le> 2 powr (log 2 \<bar>z\<bar>)" by (intro powr_mono) simp_all
  also from pos have "\<dots> = \<bar>z\<bar>" by simp
  finally show ?thesis .
next
  case False
  then have "binade z = - 1022" by (simp add: binade_def)
  with assms show ?thesis by simp
qed

lemma roundHalfEven_ge_one: "1 \<le> y \<Longrightarrow> 1 \<le> roundHalfEven y"
proof -
  assume "1 \<le> y"
  then have "1 \<le> \<lfloor>y\<rfloor>" by simp
  then show ?thesis by (simp add: roundHalfEven_def Let_def)
qed

lemma roundHalfEven_le_minus_one: "y \<le> - 1 \<Longrightarrow> roundHalfEven y \<le> - 1"
proof -
  assume y: "y \<le> - 1"
  define f where "f = \<lfloor>y\<rfloor>"
  have fy: "of_int f \<le> y" by (simp add: f_def)
  have r: "roundHalfEven y =
      (if y - of_int f < 1 / 2 then f
       else if 1 / 2 < y - of_int f then f + 1
       else if even f then f else f + 1)"
    by (simp add: roundHalfEven_def Let_def f_def)
  show ?thesis
  proof (cases "y - of_int f < 1 / 2")
    case True
    from fy y have "(of_int f :: real) \<le> of_int (- 1)" by simp
    then have "f \<le> - 1" by (simp only: of_int_le_iff)
    with True r show ?thesis by simp
  next
    case False
    with y have "(of_int f :: real) < of_int (- 1)" by simp
    then have "f < - 1" by (simp only: of_int_less_iff)
    then have "f + 1 \<le> - 1" by linarith
    moreover have "roundHalfEven y \<le> f + 1" by (simp add: r)
    ultimately show ?thesis by linarith
  qed
qed

lemma roundToDouble_pos:
  assumes "pow2 (- 1074) \<le> z"
  shows "0 < roundToDouble z"
proof -
  from assms pow2_pos [of "- 1074"] have z: "0 < z" by linarith
  let ?q = "pow2 (binade z - 52)"
  have q: "0 < ?q" by (rule pow2_pos)
  from assms z have "?q \<le> z" using ulp_below [of z] by simp
  with q have "1 \<le> z / ?q" by (simp add: le_divide_eq)
  then have "1 \<le> roundHalfEven (z / ?q)" by (rule roundHalfEven_ge_one)
  then have "0 < (of_int (roundHalfEven (z / ?q)) :: real)" by simp
  with q have "0 < ?q * of_int (roundHalfEven (z / ?q))" by (rule mult_pos_pos)
  with z show ?thesis by (simp add: roundToDouble_def)
qed

lemma roundToDouble_neg:
  assumes "z \<le> - pow2 (- 1074)"
  shows "roundToDouble z < 0"
proof -
  from assms pow2_pos [of "- 1074"] have z: "z < 0" by linarith
  let ?q = "pow2 (binade z - 52)"
  have q: "0 < ?q" by (rule pow2_pos)
  from assms z have "?q \<le> - z" using ulp_below [of z] by simp
  with q have "z / ?q \<le> - 1" by (simp add: divide_le_eq)
  then have "roundHalfEven (z / ?q) \<le> - 1" by (rule roundHalfEven_le_minus_one)
  then have "(of_int (roundHalfEven (z / ?q)) :: real) < 0" by simp
  with q have "?q * of_int (roundHalfEven (z / ?q)) < 0" by (rule mult_pos_neg)
  with z show ?thesis by (simp add: roundToDouble_def)
qed

lemma threshold_pos: "2 < overflowThreshold"
  by (simp add: overflowThreshold_def)

lemma positive_fl:
  assumes "onGrid z"
  shows "positive (fl z) = (0 < z)"
proof -
  consider "z = 0" | "0 < z" | "z < 0" by linarith
  then show ?thesis
  proof cases
    case 1
    with threshold_pos show ?thesis by (simp add: fl_def positive_def roundToDouble_def)
  next
    case 2
    with assms have "pow2 (- 1074) \<le> z" by (rule onGrid_pos)
    then have "0 < roundToDouble z" by (rule roundToDouble_pos)
    with 2 threshold_pos show ?thesis by (simp add: fl_def positive_def)
  next
    case 3
    with assms have "z \<le> - pow2 (- 1074)" by (rule onGrid_neg)
    then have "roundToDouble z < 0" by (rule roundToDouble_neg)
    with 3 threshold_pos show ?thesis by (simp add: fl_def positive_def)
  qed
qed

lemma js_div_grid: "js_div x y = Fin v \<Longrightarrow> onGrid v"
  by (cases x; cases y)
    (auto simp: fl_def roundToDouble_grid onGrid_zero split: if_splits)

lemma cosineSimilarity_grid: "cosineSimilarity a b = Fin v \<Longrightarrow> onGrid v"
  unfolding cosineSimilarity_def Let_def by (rule js_div_grid)

subsection \<open>Zero vectors\<close>









lemma fl_examples:
  "fl 0 = Fin 0" "fl 1 = Fin 1" "fl (- 1) = Fin (- 1)" "fl 2 = Fin 2" "fl (- 2) = Fin (- 2)"
  using threshold_pos
  by (simp_all add: fl_def roundToDouble_def binade_def pow2_def roundHalfEven_def)


section \<open>Properties of the ranking\<close>

lemma mset_insertRanked: "mset (insertRanked a bs) = add_mset a (mset bs)"
  by (induction bs) auto

lemma mset_sortBySimilarity: "mset (sortBySimilarity xs) = mset xs"
  by (induction xs) (auto simp: mset_insertRanked)

lemma set_sortBySimilarity: "set (sortBySimilarity xs) = set xs"
  using mset_sortBySimilarity [of xs] by (metis set_mset_mset)

lemma comesAfter_finite:
  assumes "finite_similarity a" "finite_similarity b"
  shows "comesAfter a b = (\<not> notBelow a b)"
proof -
  from assms obtain x y where a: "similarityOf a = Fin x" "onGrid x"
    and b: "similarityOf b = Fin y" "onGrid y"
    by (auto simp: finite_similarity_def split: number.splits)
  from b(2) a(2) have "positive (fl (y - x)) = (0 < y - x)"
    by (intro positive_fl onGrid_diff)
  with a(1) b(1) show ?thesis by (auto simp: comesAfter_def notBelow_def)
qed

lemma notBelow_trans:
  "notBelow a b \<Longrightarrow> notBelow b c \<Longrightarrow> notBelow a c"
  by (auto simp: notBelow_def split: number.splits)

lemma notBelow_total:
  "finite_similarity a \<Longrightarrow> finite_similarity b \<Longrightarrow> notBelow a b \<or> notBelow b a"
  by (auto simp: finite_similarity_def notBelow_def split: number.splits)


lemma sorted_insertRanked:
  assumes "finite_similarity a" "\<forall>b\<in>set bs. finite_similarity b" "sorted_wrt notBelow bs"
  shows "sorted_wrt notBelow (insertRanked a bs)"
  using assms
proof (induction bs)
  case Nil
  show ?case by simp
next
  case (Cons b bs)
  show ?case
  proof (cases "comesAfter a b")
    case True
    with Cons.prems have ba: "notBelow b a"
      using comesAfter_finite [of a b] notBelow_total [of a b] by auto
    have "sorted_wrt notBelow (insertRanked a bs)"
      using Cons by simp
    moreover have "\<forall>x\<in>set (insertRanked a bs). notBelow b x"
    proof
      fix x assume "x \<in> set (insertRanked a bs)"
      then have "x \<in># mset (insertRanked a bs)" by simp
      then have "x = a \<or> x \<in> set bs" by (simp add: mset_insertRanked)
      with ba Cons.prems(3) show "notBelow b x" by auto
    qed
    ultimately show ?thesis using True by simp
  next
    case False
    with Cons.prems have ab: "notBelow a b"
      using comesAfter_finite [of a b] by auto
    with Cons.prems(3) have "\<forall>x\<in>set bs. notBelow a x"
      by (auto intro: notBelow_trans)
    with ab Cons.prems(3) False show ?thesis by simp
  qed
qed

lemma sorted_sortBySimilarity:
  "\<forall>x\<in>set xs. finite_similarity x \<Longrightarrow> sorted_wrt notBelow (sortBySimilarity xs)"
  by (induction xs) (auto simp: sorted_insertRanked set_sortBySimilarity)



section \<open>The filter combinator\<close>

text \<open>Values used by the worked examples.\<close>

lemma cos_examples:
  "cosineSimilarity [1, 0] [0, 1] = Fin 0"
  "cosineSimilarity [1, 0] [1, 0] = Fin 1"
  "cosineSimilarity [1, 0] [- 1, 0] = Fin (- 1)"
  "cosineSimilarity [1, 0] [0, 0] = NaN"
  by (simp_all add: cosineSimilarity_def element_def enumerate_eq_zip fl_examples
      roundToDouble_def binade_def pow2_def roundHalfEven_def)

lemmas rank_eval = ranked_def score_def cos_examples comesAfter_def positive_def
  similarityOf_def fl_examples

lemma ranked_example:
  "ranked [1, 0] [andiroba, copaiba, castanha] =
     [copaiba\<lparr>similarity := Some (Fin 1)\<rparr>, andiroba\<lparr>similarity := Some (Fin 0)\<rparr>,
      castanha\<lparr>similarity := Some (Fin (- 1))\<rparr>]"
  by (simp add: rank_eval andiroba_def copaiba_def castanha_def)

lemma ranked_example4:
  "ranked [1, 0] [andiroba, copaiba, castanha, urucum] =
     [copaiba\<lparr>similarity := Some (Fin 1)\<rparr>, andiroba\<lparr>similarity := Some (Fin 0)\<rparr>,
      urucum\<lparr>similarity := Some (Fin 0)\<rparr>, castanha\<lparr>similarity := Some (Fin (- 1))\<rparr>]"
  by (simp add: rank_eval andiroba_def copaiba_def castanha_def urucum_def)

lemma ranked_copaifera:
  "ranked [1, 0] [copaibaOil, andiroba, copaiba, copaibaLeaf] =
     [copaiba\<lparr>similarity := Some (Fin 1)\<rparr>, copaibaOil\<lparr>similarity := Some (Fin 0)\<rparr>,
      andiroba\<lparr>similarity := Some (Fin 0)\<rparr>, copaibaLeaf\<lparr>similarity := Some (Fin (- 1))\<rparr>]"
  by (simp add: rank_eval andiroba_def copaiba_def copaibaOil_def copaibaLeaf_def)

lemmas normalize_eval = normalizeField_def ecosystemServiceSynonyms_def partUsedSynonyms_def
  string_eval

lemma askMedicine_extraction:
  "extractQuery (LlmAnswers askMedicine) question =
     \<lparr>query = \<lparr>species = None, ecosystemService = Some ''Medicinal'', partUsed = None\<rparr>,
      only = None, andQ = None, usedLLM = True\<rparr>"
  by (simp add: extractQuery_def askMedicine_def normalize_eval)

lemma askMedicinalAndBark_extraction:
  "extractQuery (LlmAnswers askMedicinalAndBark) question =
     \<lparr>query = \<lparr>species = None, ecosystemService = Some ''Medicinal'', partUsed = None\<rparr>,
      only = None,
      andQ = Some \<lparr>and_ecosystemService = Some ''raw'', and_partUsed = Some ''BARK''\<rparr>,
      usedLLM = True\<rparr>"
  by (simp add: extractQuery_def askMedicinalAndBark_def normalize_eval)

lemma askOnlyMedicineBark_extraction:
  "extractQuery (LlmAnswers askOnlyMedicineBark) question =
     \<lparr>query = \<lparr>species = None, ecosystemService = Some ''Medicinal'',
               partUsed = Some ''bark''\<rparr>,
      only = Some True, andQ = None, usedLLM = True\<rparr>"
  by (simp add: extractQuery_def askOnlyMedicineBark_def normalize_eval)

lemma askCopaiferaMedicineBark_extraction:
  "extractQuery (LlmAnswers askCopaiferaMedicineBark) question =
     \<lparr>query = \<lparr>species = Some ''COPAIFERA'', ecosystemService = Some ''Medicinal'',
               partUsed = Some ''bark''\<rparr>,
      only = None, andQ = None, usedLLM = True\<rparr>"
  by (simp add: extractQuery_def askCopaiferaMedicineBark_def normalize_eval)

lemma askAndEmptyService_extraction:
  "extractQuery (LlmAnswers askAndEmptyService) question =
     \<lparr>query = \<lparr>species = None, ecosystemService = None, partUsed = None\<rparr>,
      only = None,
      andQ = Some \<lparr>and_ecosystemService = Some [], and_partUsed = None\<rparr>,
      usedLLM = True\<rparr>"
  by (simp add: extractQuery_def askAndEmptyService_def normalize_eval)

lemma onlyLeaves_extraction:
  "extractQuery LlmThrows ''Show me trees that only the leaves are used.'' =
     \<lparr>query = \<lparr>species = None, ecosystemService = None, partUsed = Some ''leaves''\<rparr>,
      only = Some True, andQ = None, usedLLM = False\<rparr>"
  by (simp add: extractQuery_def parser_eval)

text \<open>
  Claim C3. When \<^verbatim>\<open>only\<close> is truthy, the result is the \<^verbatim>\<open>and\<close> block applied to the loaded,
  unranked catalog filtered by the exclusivity predicate: for each field among
  \<^verbatim>\<open>ecosystemService\<close> and \<^verbatim>\<open>partUsed\<close> of the query that is not \<^verbatim>\<open>null\<close>, the entry's array has
  length 1 and its element equals the query's value without regard to case. Without an
  \<^verbatim>\<open>and\<close> object the result is that filtered catalog itself, and with neither field set
  every entry of the catalog matches.
\<close>

theorem exclusivity_branch:
  assumes "ex = extractQuery outcome question" and "truthyBool (only ex)"
  shows "finalFiltered ex questionEmbedding catalog =
           andLogic (andQ ex) (filter (specExclusive (query ex)) catalog) \<and>
         (andQ ex = None \<longrightarrow>
            finalFiltered ex questionEmbedding catalog =
              filter (specExclusive (query ex)) catalog) \<and>
         (ecosystemService (query ex) = None \<and> partUsed (query ex) = None \<longrightarrow>
            filter (specExclusive (query ex)) catalog = catalog)"
proof -
  have "onlyCallback (query ex) = specExclusive (query ex)"
    unfolding assms(1)
    by (rule onlyCallback_spec) (erule extract_service_nonempty, erule extract_part_nonempty)
  with assms(2) have primary:
    "primaryBranch ex catalog (ranked questionEmbedding catalog) =
       filter (specExclusive (query ex)) catalog"
    by (simp add: primaryBranch_def)
  have final: "finalFiltered ex questionEmbedding catalog =
      andLogic (andQ ex) (filter (specExclusive (query ex)) catalog)"
    by (simp only: finalFiltered_def onlyAgain_primary) (simp only: primary)
  have noop: "filter (specExclusive (query ex)) catalog = catalog"
    if "ecosystemService (query ex) = None \<and> partUsed (query ex) = None"
    using that by (simp add: specExclusive_def)
  from final noop show ?thesis by (simp add: andLogic_def)
qed

text \<open>
  Two requests. The completion service answers \<^verbatim>\<open>{ecosystemService: "medicine", partUsed:
  "BARK", only: true}\<close>, normalized to \<^verbatim>\<open>Medicinal\<close> and \<^verbatim>\<open>bark\<close>: of five entries, the one with
  two services and two parts, the one whose part is \<^verbatim>\<open>leaves\<close> and the one whose service is
  \<^verbatim>\<open>Food\<close> are left out, and the two kept are the one that matches letter for letter and the
  one recorded as \<^verbatim>\<open>medicinal\<close> and \<^verbatim>\<open>Bark\<close>. And the specification's example: the query
  \<^verbatim>\<open>{partUsed: "leaves", only: true}\<close> leaves out an entry whose parts are
  \<^verbatim>\<open>["leaves", "bark"]\<close> and keeps one whose parts are \<^verbatim>\<open>["leaves"]\<close>.
\<close>

theorem exclusivity_branch_witness:
  "truthyBool (only (extractQuery (LlmAnswers askOnlyMedicineBark) ''Only medicinal bark?'')) \<and>
   finalFiltered (extractQuery (LlmAnswers askOnlyMedicineBark) ''Only medicinal bark?'')
     [1, 0] [andiroba, copaiba, urucum, sangue, castanha] = [copaiba, sangue] \<and>
   truthyBool (only (extractQuery LlmThrows ''Show me trees that only the leaves are used.'')) \<and>
   finalFiltered (extractQuery LlmThrows ''Show me trees that only the leaves are used.'')
     [1, 0] [jatoba, urucum] = [urucum]"
proof -
  let ?ex = "extractQuery (LlmAnswers askOnlyMedicineBark) ''Only medicinal bark?''"
  let ?catalog = "[andiroba, copaiba, urucum, sangue, castanha]"
  have only: "truthyBool (only ?ex)" and no_and: "andQ ?ex = None"
    by (simp_all add: askOnlyMedicineBark_extraction truthyBool_def)
  have kept: "filter (specExclusive (query ?ex)) ?catalog = [copaiba, sangue]"
    unfolding askOnlyMedicineBark_extraction
    by (simp add: specExclusive_def sameIgnoringCase_def sameLetter_def caseVariants_def
        andiroba_def copaiba_def urucum_def sangue_def castanha_def)
  from exclusivity_branch [OF refl only, of "[1, 0]" ?catalog] no_and
  have "finalFiltered ?ex [1, 0] ?catalog = filter (specExclusive (query ?ex)) ?catalog"
    by blast
  with kept have first: "finalFiltered ?ex [1, 0] ?catalog = [copaiba, sangue]"
    by (rule trans [rotated])
  let ?ex' = "extractQuery LlmThrows ''Show me trees that only the leaves are used.''"
  have only': "truthyBool (only ?ex')" and no_and': "andQ ?ex' = None"
    by (simp_all add: onlyLeaves_extraction truthyBool_def)
  have kept': "filter (specExclusive (query ?ex')) [jatoba, urucum] = [urucum]"
    unfolding onlyLeaves_extraction
    by (simp add: specExclusive_def sameIgnoringCase_def sameLetter_def caseVariants_def
        jatoba_def urucum_def)
  from exclusivity_branch [OF refl only', of "[1, 0]" "[jatoba, urucum]"] no_and'
  have "finalFiltered ?ex' [1, 0] [jatoba, urucum] =
      filter (specExclusive (query ?ex')) [jatoba, urucum]"
    by blast
  with kept' have "finalFiltered ?ex' [1, 0] [jatoba, urucum] = [urucum]"
    by (rule trans [rotated])
  with first only only' show ?thesis by blast
qed

text \<open>
  Claim C4. When \<^verbatim>\<open>only\<close> is falsy, the result is the \<^verbatim>\<open>and\<close> block applied to the ranked
  catalog filtered, in rank order, by the default predicate: each of \<^verbatim>\<open>species\<close>,
  \<^verbatim>\<open>ecosystemService\<close> and \<^verbatim>\<open>partUsed\<close> that is not \<^verbatim>\<open>null\<close> occurs, without regard to case, in
  the entry's species name, in one of its services, in one of its parts. With every field
  \<^verbatim>\<open>null\<close> and no \<^verbatim>\<open>and\<close> object the result is the whole ranked catalog. The ranked catalog
  is a rearrangement of the scored catalog, in descending order of similarity when every
  similarity is a number.
\<close>

theorem default_branch:
  assumes "ex = extractQuery outcome question" and "\<not> truthyBool (only ex)"
  shows "finalFiltered ex questionEmbedding catalog =
           andLogic (andQ ex)
             (filter (specDefault (query ex)) (ranked questionEmbedding catalog)) \<and>
         (andQ ex = None \<longrightarrow>
            finalFiltered ex questionEmbedding catalog =
              filter (specDefault (query ex)) (ranked questionEmbedding catalog)) \<and>
         (species (query ex) = None \<and> ecosystemService (query ex) = None \<and>
          partUsed (query ex) = None \<and> andQ ex = None \<longrightarrow>
            finalFiltered ex questionEmbedding catalog = ranked questionEmbedding catalog) \<and>
         mset (ranked questionEmbedding catalog) = mset (map (score questionEmbedding) catalog) \<and>
         ((\<forall>entry\<in>set catalog.
             \<exists>x. cosineSimilarity questionEmbedding (embedding entry) = Fin x) \<longrightarrow>
            sorted_wrt notBelow (ranked questionEmbedding catalog))"
proof -
  have "defaultCallback (query ex) = specDefault (query ex)"
    unfolding assms(1)
    by (rule defaultCallback_spec) (erule extract_service_nonempty, erule extract_part_nonempty)
  with assms(2) have primary:
    "primaryBranch ex catalog (ranked questionEmbedding catalog) =
       filter (specDefault (query ex)) (ranked questionEmbedding catalog)"
    by (simp add: primaryBranch_def)
  have final: "finalFiltered ex questionEmbedding catalog =
      andLogic (andQ ex) (filter (specDefault (query ex)) (ranked questionEmbedding catalog))"
    by (simp only: finalFiltered_def onlyAgain_primary) (simp only: primary)
  have plain: "finalFiltered ex questionEmbedding catalog =
      filter (specDefault (query ex)) (ranked questionEmbedding catalog)"
    if "andQ ex = None"
    using that final by (simp add: andLogic_def)
  have identity: "finalFiltered ex questionEmbedding catalog = ranked questionEmbedding catalog"
    if "species (query ex) = None \<and> ecosystemService (query ex) = None \<and>
        partUsed (query ex) = None \<and> andQ ex = None"
    using that plain by (simp add: specDefault_def)
  have perm: "mset (ranked questionEmbedding catalog) =
      mset (map (score questionEmbedding) catalog)"
    by (simp add: ranked_def mset_sortBySimilarity)
  have sorted: "sorted_wrt notBelow (ranked questionEmbedding catalog)"
    if "\<forall>entry\<in>set catalog. \<exists>x. cosineSimilarity questionEmbedding (embedding entry) = Fin x"
    unfolding ranked_def
  proof (rule sorted_sortBySimilarity, rule ballI)
    fix s assume "s \<in> set (map (score questionEmbedding) catalog)"
    then obtain entry where e: "entry \<in> set catalog" "s = score questionEmbedding entry" by auto
    with that obtain x where x: "cosineSimilarity questionEmbedding (embedding entry) = Fin x"
      by blast
    then have "onGrid x" by (rule cosineSimilarity_grid)
    with e x show "finite_similarity s"
      by (simp add: finite_similarity_def similarityOf_def score_def)
  qed
  from final plain identity perm sorted show ?thesis by blast
qed

text \<open>
  The answer \<^verbatim>\<open>{species: "COPAIFERA", ecosystemService: "medicine", partUsed: "Bark"}\<close> of the
  completion service over four entries. Ranking moves the best entry to the front. The
  entry of another genus fails the species filter and the one whose part is \<^verbatim>\<open>leaves\<close> the
  part filter; the two returned match by substring and without regard to case
  (\<^verbatim>\<open>medicinal use\<close>, \<^verbatim>\<open>inner Bark\<close>).
\<close>

theorem default_branch_witness:
  "\<not> truthyBool (only (extractQuery (LlmAnswers askCopaiferaMedicineBark) ''Copaifera?'')) \<and>
   ranked [1, 0] [copaibaOil, andiroba, copaiba, copaibaLeaf] =
     [copaiba\<lparr>similarity := Some (Fin 1)\<rparr>, copaibaOil\<lparr>similarity := Some (Fin 0)\<rparr>,
      andiroba\<lparr>similarity := Some (Fin 0)\<rparr>, copaibaLeaf\<lparr>similarity := Some (Fin (- 1))\<rparr>] \<and>
   finalFiltered (extractQuery (LlmAnswers askCopaiferaMedicineBark) ''Copaifera?'') [1, 0]
     [copaibaOil, andiroba, copaiba, copaibaLeaf] =
     [copaiba\<lparr>similarity := Some (Fin 1)\<rparr>, copaibaOil\<lparr>similarity := Some (Fin 0)\<rparr>] \<and>
   sorted_wrt notBelow (ranked [1, 0] [copaibaOil, andiroba, copaiba, copaibaLeaf])"
proof -
  let ?ex = "extractQuery (LlmAnswers askCopaiferaMedicineBark) ''Copaifera?''"
  let ?catalog = "[copaibaOil, andiroba, copaiba, copaibaLeaf]"
  have only: "\<not> truthyBool (only ?ex)" and no_and: "andQ ?ex = None"
    by (simp_all add: askCopaiferaMedicineBark_extraction truthyBool_def)
  have fin: "\<forall>entry\<in>set ?catalog. \<exists>x. cosineSimilarity [1, 0] (embedding entry) = Fin x"
    by (simp add: andiroba_def copaiba_def copaibaOil_def copaibaLeaf_def cos_examples)
  have kept: "filter (specDefault (query ?ex)) (ranked [1, 0] ?catalog) =
      [copaiba\<lparr>similarity := Some (Fin 1)\<rparr>, copaibaOil\<lparr>similarity := Some (Fin 0)\<rparr>]"
    unfolding ranked_copaifera askCopaiferaMedicineBark_extraction
    by (simp add: specDefault_def anyServiceHas_def anyPartHas_def spec_eval
        andiroba_def copaiba_def copaibaOil_def copaibaLeaf_def)
  note t = default_branch [OF refl only, of "[1, 0]" ?catalog]
  from t no_and have "finalFiltered ?ex [1, 0] ?catalog =
      filter (specDefault (query ?ex)) (ranked [1, 0] ?catalog)"
    by blast
  with kept have "finalFiltered ?ex [1, 0] ?catalog =
      [copaiba\<lparr>similarity := Some (Fin 1)\<rparr>, copaibaOil\<lparr>similarity := Some (Fin 0)\<rparr>]"
    by (rule trans [rotated])
  moreover from t fin have "sorted_wrt notBelow (ranked [1, 0] ?catalog)"
    by blast
  ultimately show ?thesis using only ranked_copaifera by blast
qed

text \<open>
  Claim C5, amended. Whichever primary branch ran, the final list is that branch's result
  filtered by the two predicates of the \<^verbatim>\<open>and\<close> object: a field that is a non-empty string
  must occur, without regard to case, in one of the entry's services, or parts; a field
  that is absent or the empty string asks for nothing. The set of results is the
  intersection of the branch's result with each predicate. The \<^verbatim>\<open>and\<close> object is the
  completion service's own, not normalized; the heuristic parser never sets one.
\<close>

theorem and_composition:
  assumes "ex = extractQuery outcome question"
  shows "finalFiltered ex questionEmbedding catalog =
           filter (\<lambda>entry. andServicePredicate (andQ ex) entry \<and> andPartPredicate (andQ ex) entry)
             (primaryBranch ex catalog (ranked questionEmbedding catalog)) \<and>
         set (finalFiltered ex questionEmbedding catalog) =
           set (primaryBranch ex catalog (ranked questionEmbedding catalog)) \<inter>
             {entry. andServicePredicate (andQ ex) entry} \<inter>
             {entry. andPartPredicate (andQ ex) entry} \<and>
         andQ ex = (case outcome of LlmAnswers llmQuery \<Rightarrow> llm_and llmQuery | LlmThrows \<Rightarrow> None)"
proof -
  have final: "finalFiltered ex questionEmbedding catalog =
      filter (\<lambda>entry. andServicePredicate (andQ ex) entry \<and> andPartPredicate (andQ ex) entry)
        (primaryBranch ex catalog (ranked questionEmbedding catalog))"
    by (simp only: finalFiltered_def onlyAgain_primary andLogic_filter)
  then have sets: "set (finalFiltered ex questionEmbedding catalog) =
      set (primaryBranch ex catalog (ranked questionEmbedding catalog)) \<inter>
        {entry. andServicePredicate (andQ ex) entry} \<inter>
        {entry. andPartPredicate (andQ ex) entry}"
    by auto
  have raw: "andQ ex =
      (case outcome of LlmAnswers llmQuery \<Rightarrow> llm_and llmQuery | LlmThrows \<Rightarrow> None)"
    unfolding assms
    by (cases outcome)
      (simp_all add: extractQuery_def heuristicParse_def Let_def split: option.splits)
  from final sets raw show ?thesis by blast
qed

text \<open>
  The query \<^verbatim>\<open>{ecosystemService: "Medicinal"}\<close> with \<^verbatim>\<open>and = {ecosystemService: "raw",
  partUsed: "BARK"}\<close>. The primary branch keeps the three medicinal entries; the \<^verbatim>\<open>and\<close>
  block keeps the one of them that has \<^verbatim>\<open>Raw Material\<close> among its services and \<^verbatim>\<open>bark\<close>
  among its parts, and leaves out one that has the bark only.
\<close>

theorem and_composition_witness:
  "primaryBranch (extractQuery (LlmAnswers askMedicinalAndBark) ''Medicinal bark?'')
     [andiroba, copaiba, castanha, urucum] (ranked [1, 0] [andiroba, copaiba, castanha, urucum]) =
     [copaiba\<lparr>similarity := Some (Fin 1)\<rparr>, andiroba\<lparr>similarity := Some (Fin 0)\<rparr>,
      urucum\<lparr>similarity := Some (Fin 0)\<rparr>] \<and>
   finalFiltered (extractQuery (LlmAnswers askMedicinalAndBark) ''Medicinal bark?'') [1, 0]
     [andiroba, copaiba, castanha, urucum] =
     [andiroba\<lparr>similarity := Some (Fin 0)\<rparr>]"
proof -
  let ?ex = "extractQuery (LlmAnswers askMedicinalAndBark) ''Medicinal bark?''"
  let ?catalog = "[andiroba, copaiba, castanha, urucum]"
  have primary: "primaryBranch ?ex ?catalog (ranked [1, 0] ?catalog) =
      [copaiba\<lparr>similarity := Some (Fin 1)\<rparr>, andiroba\<lparr>similarity := Some (Fin 0)\<rparr>,
       urucum\<lparr>similarity := Some (Fin 0)\<rparr>]"
    unfolding ranked_example4 askMedicinalAndBark_extraction
    by (simp add: primaryBranch_def truthyBool_def defaultCallback_def someService_def truthy_def
        andiroba_def copaiba_def castanha_def urucum_def toLowerCase_def isUpper_def)
  have narrowed: "filter (\<lambda>entry. andServicePredicate (andQ ?ex) entry \<and>
        andPartPredicate (andQ ?ex) entry)
      [copaiba\<lparr>similarity := Some (Fin 1)\<rparr>, andiroba\<lparr>similarity := Some (Fin 0)\<rparr>,
       urucum\<lparr>similarity := Some (Fin 0)\<rparr>] =
      [andiroba\<lparr>similarity := Some (Fin 0)\<rparr>]"
    unfolding askMedicinalAndBark_extraction
    by (simp add: andServicePredicate_def andPartPredicate_def anyServiceHas_def anyPartHas_def
        spec_eval andiroba_def copaiba_def urucum_def)
  from and_composition [OF refl, of "LlmAnswers askMedicinalAndBark" "''Medicinal bark?''"
      "[1, 0]" ?catalog]
  have "finalFiltered ?ex [1, 0] ?catalog =
      filter (\<lambda>entry. andServicePredicate (andQ ?ex) entry \<and> andPartPredicate (andQ ?ex) entry)
        (primaryBranch ?ex ?catalog (ranked [1, 0] ?catalog))"
    by blast
  then have "finalFiltered ?ex [1, 0] ?catalog = [andiroba\<lparr>similarity := Some (Fin 0)\<rparr>]"
    by (simp only: primary narrowed)
  with primary show ?thesis by blast
qed

text \<open>
  Claim C5 as stated fails for an \<^verbatim>\<open>and\<close> field that is the empty string: the handler skips
  it, and an entry with no service at all stays in the result, though no service of it
  holds the value.
\<close>

theorem and_composition_counterexample:
  "andQ (extractQuery (LlmAnswers askAndEmptyService) ''Any tree?'') =
     Some \<lparr>and_ecosystemService = Some [], and_partUsed = None\<rparr> \<and>
   finalFiltered (extractQuery (LlmAnswers askAndEmptyService) ''Any tree?'') [1, 0] [pauRosa] =
     [pauRosa\<lparr>similarity := Some (Fin 1)\<rparr>] \<and>
   \<not> anyServiceHas [] (pauRosa\<lparr>similarity := Some (Fin 1)\<rparr>)"
proof -
  have "finalFiltered (extractQuery (LlmAnswers askAndEmptyService) ''Any tree?'') [1, 0]
      [pauRosa] = [pauRosa\<lparr>similarity := Some (Fin 1)\<rparr>]"
    unfolding askAndEmptyService_extraction
    by (simp add: finalFiltered_def andLogic_def onlyAgain_def primaryBranch_def truthyBool_def
        defaultCallback_def truthy_def rank_eval pauRosa_def)
  moreover have "\<not> anyServiceHas [] (pauRosa\<lparr>similarity := Some (Fin 1)\<rparr>)"
    by (simp add: anyServiceHas_def pauRosa_def)
  ultimately show ?thesis by (simp add: askAndEmptyService_extraction)
qed

section \<open>Properties of the request handler\<close>

lemma POST_success:
  assumes "question \<noteq> []"
    and "embeddingsCreate env question = Some questionEmbedding"
    and "fetchPublicJson env ''data_with_embeddings.json'' = Some catalog"
  shows "POST env (Some question) =
    ((if isCountQuery question
      then CountResponse
             (length (finalFiltered (extractQuery (llm env question) question)
                questionEmbedding catalog))
      else ResultsResponse
             (map (\<lambda>it. \<lparr>item = it, images = fetchGbifImages env (Species it)\<rparr>)
                (finalFiltered (extractQuery (llm env question) question)
                   questionEmbedding catalog))),
     [LlmCall question, EmbeddingCall question, JsonFetch ''data_with_embeddings.json''] @
       map (\<lambda>it. GbifCall (Species it))
         (finalFiltered (extractQuery (llm env question) question) questionEmbedding catalog))"
  using assms by (simp add: POST_def truthy_def Let_def)

lemma finalFiltered_subset:
  "set (finalFiltered ex questionEmbedding catalog) \<subseteq>
   set (primaryBranch ex catalog (ranked questionEmbedding catalog))"
  by (simp only: finalFiltered_def onlyAgain_primary andLogic_filter) auto

lemma set_ranked: "set (ranked questionEmbedding catalog) = score questionEmbedding ` set catalog"
  by (simp add: ranked_def set_sortBySimilarity)

lemma count_example_extraction:
  "extractQuery LlmThrows ''How many species provide food?'' =
     \<lparr>query = \<lparr>species = None, ecosystemService = Some ''Food'', partUsed = None\<rparr>,
      only = None, andQ = None, usedLLM = False\<rparr>"
  by (simp add: extractQuery_def parser_eval)

lemma count_examples:
  "isCountQuery ''How many species provide food?''"
  "isCountQuery ''What is the number of medicinal trees?''"
  "\<not> isCountQuery ''Which trees are medicinal?''"
  "\<not> isCountQuery ''Show me trees that only the leaves are used.''"
  by (simp_all add: isCountQuery_def toLowerCase_def isUpper_def)

lemma collaborators_simps:
  "llm (collaborators outcome catalog) question = outcome"
  "embeddingsCreate (collaborators outcome catalog) question = Some [1, 0]"
  "fetchPublicJson (collaborators outcome catalog) ''data_with_embeddings.json'' = Some catalog"
  "fetchGbifImages (collaborators outcome catalog) speciesName =
     [''https://img.example/'' @ speciesName]"
  by (simp_all add: collaborators_def)

text \<open>
  Claim C1, amended. For a non-empty question that the count detector accepts, when the
  embedding service and the catalog fetch succeed, the response is the number of entries
  of the final filtered list and nothing else; before it answers, the handler has called
  the image lookup once for each entry of that list, in order, and it drops what the
  lookups returned.
\<close>

theorem count_path:
  assumes "question \<noteq> []" and "isCountQuery question"
    and "embeddingsCreate env question = Some questionEmbedding"
    and "fetchPublicJson env ''data_with_embeddings.json'' = Some catalog"
    and "filtered = finalFiltered (extractQuery (llm env question) question)
           questionEmbedding catalog"
  shows "POST env (Some question) =
           (CountResponse (length filtered),
            [LlmCall question, EmbeddingCall question, JsonFetch ''data_with_embeddings.json''] @
              map (\<lambda>it. GbifCall (Species it)) filtered)"
  using POST_success [OF assms(1,3,4)] assms(2,5) by simp

text \<open>A count question over three entries, two of which are medicinal.\<close>

theorem count_path_witness:
  "isCountQuery ''What is the number of medicinal trees?'' \<and>
   POST (collaborators (LlmAnswers askMedicine) [andiroba, copaiba, castanha])
     (Some ''What is the number of medicinal trees?'') =
     (CountResponse 2,
      [LlmCall ''What is the number of medicinal trees?'',
       EmbeddingCall ''What is the number of medicinal trees?'',
       JsonFetch ''data_with_embeddings.json'',
       GbifCall ''Copaifera multijuga'', GbifCall ''Carapa guianensis''])"
proof -
  let ?q = "''What is the number of medicinal trees?''"
  let ?env = "collaborators (LlmAnswers askMedicine) [andiroba, copaiba, castanha]"
  have filtered: "finalFiltered (extractQuery (llm ?env ?q) ?q) [1, 0]
      [andiroba, copaiba, castanha] =
      [copaiba\<lparr>similarity := Some (Fin 1)\<rparr>, andiroba\<lparr>similarity := Some (Fin 0)\<rparr>]"
    unfolding collaborators_simps finalFiltered_def ranked_example askMedicine_extraction
    by (simp add: andLogic_def onlyAgain_def primaryBranch_def truthyBool_def defaultCallback_def
        someService_def truthy_def andiroba_def copaiba_def castanha_def toLowerCase_def
        isUpper_def)
  have "POST ?env (Some ?q) =
      (CountResponse (length [copaiba\<lparr>similarity := Some (Fin 1)\<rparr>,
          andiroba\<lparr>similarity := Some (Fin 0)\<rparr>]),
       [LlmCall ?q, EmbeddingCall ?q, JsonFetch ''data_with_embeddings.json''] @
         map (\<lambda>it. GbifCall (Species it))
           [copaiba\<lparr>similarity := Some (Fin 1)\<rparr>, andiroba\<lparr>similarity := Some (Fin 0)\<rparr>])"
    by (rule count_path [OF _ count_examples(2) collaborators_simps(2) collaborators_simps(3)
          filtered [symmetric]]) simp
  then show ?thesis
    by (simp add: count_examples andiroba_def copaiba_def)
qed

text \<open>
  Claim C1 as stated fails: on the specification's own count question the response is
  \<^verbatim>\<open>{count: 1}\<close> and the image lookup has been called for the one matching species.
\<close>

theorem count_path_counterexample:
  "isCountQuery ''How many species provide food?'' \<and>
   POST (collaborators LlmThrows [castanha]) (Some ''How many species provide food?'') =
     (CountResponse 1,
      [LlmCall ''How many species provide food?'',
       EmbeddingCall ''How many species provide food?'',
       JsonFetch ''data_with_embeddings.json'',
       GbifCall ''Bertholletia excelsa'']) \<and>
   GbifCall ''Bertholletia excelsa'' \<in>
     set (snd (POST (collaborators LlmThrows [castanha])
       (Some ''How many species provide food?'')))"
proof -
  let ?q = "''How many species provide food?''"
  have filtered: "finalFiltered (extractQuery LlmThrows ?q) [1, 0] [castanha] =
      [castanha\<lparr>similarity := Some (Fin (- 1))\<rparr>]"
    unfolding count_example_extraction
    by (simp add: finalFiltered_def ranked_def score_def andLogic_def onlyAgain_def
        primaryBranch_def truthyBool_def defaultCallback_def someService_def truthy_def
        castanha_def cos_examples toLowerCase_def isUpper_def)
  have "POST (collaborators LlmThrows [castanha]) (Some ?q) =
     (CountResponse 1,
      [LlmCall ?q, EmbeddingCall ?q, JsonFetch ''data_with_embeddings.json'',
       GbifCall ''Bertholletia excelsa''])"
    by (simp add: POST_success [where questionEmbedding = "[1, 0]" and catalog = "[castanha]"]
        collaborators_simps count_examples filtered)
      (simp add: castanha_def)
  with count_examples(1) show ?thesis by simp
qed

text \<open>
  Claim C2, amended. A successful request that is not a count query answers with the final
  filtered list, each entry with its images. On the default branch every result is a
  catalog entry scored in this request: its \<^verbatim>\<open>similarity\<close> is the cosine similarity of the
  question's embedding and its own. On the exclusivity branch every result is an entry of
  the catalog as it was loaded, with the \<^verbatim>\<open>similarity\<close> the file holds, if any.
\<close>

theorem results_scored:
  assumes "question \<noteq> []" and "\<not> isCountQuery question"
    and "embeddingsCreate env question = Some questionEmbedding"
    and "fetchPublicJson env ''data_with_embeddings.json'' = Some catalog"
    and "ex = extractQuery (llm env question) question"
  shows "\<exists>results.
           fst (POST env (Some question)) = ResultsResponse results \<and>
           map item results = finalFiltered ex questionEmbedding catalog \<and>
           (\<not> truthyBool (only ex) \<longrightarrow>
              (\<forall>r\<in>set results.
                 (\<exists>entry\<in>set catalog. item r = score questionEmbedding entry) \<and>
                 similarity (item r) =
                   Some (cosineSimilarity questionEmbedding (embedding (item r))))) \<and>
           (truthyBool (only ex) \<longrightarrow> (\<forall>r\<in>set results. item r \<in> set catalog))"
proof -
  let ?filtered = "finalFiltered ex questionEmbedding catalog"
  let ?results = "map (\<lambda>it. \<lparr>item = it, images = fetchGbifImages env (Species it)\<rparr>) ?filtered"
  have response: "fst (POST env (Some question)) = ResultsResponse ?results"
    using POST_success [OF assms(1,3,4)] assms(2,5) by simp
  have items: "map item ?results = ?filtered"
    by (simp add: comp_def)
  have scored: "(\<exists>entry\<in>set catalog. item r = score questionEmbedding entry) \<and>
      similarity (item r) = Some (cosineSimilarity questionEmbedding (embedding (item r)))"
    if "\<not> truthyBool (only ex)" "r \<in> set ?results" for r
  proof -
    from that(2) have "item r \<in> set ?filtered" by auto
    with finalFiltered_subset have "item r \<in> set (primaryBranch ex catalog
        (ranked questionEmbedding catalog))" by blast
    with that(1) have "item r \<in> set (ranked questionEmbedding catalog)"
      by (simp add: primaryBranch_def)
    then obtain entry where "entry \<in> set catalog" "item r = score questionEmbedding entry"
      by (auto simp: set_ranked)
    then show ?thesis by (auto simp: score_def)
  qed
  have loaded: "item r \<in> set catalog" if "truthyBool (only ex)" "r \<in> set ?results" for r
  proof -
    from that(2) have "item r \<in> set ?filtered" by auto
    with finalFiltered_subset have "item r \<in> set (primaryBranch ex catalog
        (ranked questionEmbedding catalog))" by blast
    with that(1) show ?thesis by (simp add: primaryBranch_def)
  qed
  from response items scored loaded show ?thesis by blast
qed


text \<open>A default-branch request: both results carry the similarity computed for it.\<close>

theorem results_scored_witness:
  "\<not> isCountQuery ''Which trees are medicinal?'' \<and>
   \<not> truthyBool (only (extractQuery (LlmAnswers askMedicine) ''Which trees are medicinal?'')) \<and>
   fst (POST (collaborators (LlmAnswers askMedicine) [andiroba, copaiba, castanha])
     (Some ''Which trees are medicinal?'')) =
     ResultsResponse
       [\<lparr>item = copaiba\<lparr>similarity := Some (Fin 1)\<rparr>,
         images = [''https://img.example/Copaifera multijuga'']\<rparr>,
        \<lparr>item = andiroba\<lparr>similarity := Some (Fin 0)\<rparr>,
         images = [''https://img.example/Carapa guianensis'']\<rparr>] \<and>
   list_all (\<lambda>r. similarity (item r) = Some (cosineSimilarity [1, 0] (embedding (item r))))
       [\<lparr>item = copaiba\<lparr>similarity := Some (Fin 1)\<rparr>,
         images = [''https://img.example/Copaifera multijuga'']\<rparr>,
        \<lparr>item = andiroba\<lparr>similarity := Some (Fin 0)\<rparr>,
         images = [''https://img.example/Carapa guianensis'']\<rparr>]"
proof -
  let ?q = "''Which trees are medicinal?''"
  let ?env = "collaborators (LlmAnswers askMedicine) [andiroba, copaiba, castanha]"
  let ?ex = "extractQuery (LlmAnswers askMedicine) ?q"
  let ?expected = "[\<lparr>item = copaiba\<lparr>similarity := Some (Fin 1)\<rparr>,
         images = [''https://img.example/Copaifera multijuga'']\<rparr>,
        \<lparr>item = andiroba\<lparr>similarity := Some (Fin 0)\<rparr>,
         images = [''https://img.example/Carapa guianensis'']\<rparr>]"
  have only: "\<not> truthyBool (only ?ex)"
    by (simp add: askMedicine_extraction truthyBool_def)
  have filtered: "finalFiltered ?ex [1, 0] [andiroba, copaiba, castanha] =
      [copaiba\<lparr>similarity := Some (Fin 1)\<rparr>, andiroba\<lparr>similarity := Some (Fin 0)\<rparr>]"
    unfolding finalFiltered_def ranked_example askMedicine_extraction
    by (simp add: andLogic_def onlyAgain_def primaryBranch_def truthyBool_def defaultCallback_def
        someService_def truthy_def andiroba_def copaiba_def castanha_def toLowerCase_def
        isUpper_def)
  have response: "fst (POST ?env (Some ?q)) = ResultsResponse ?expected"
    by (simp add: POST_success [where questionEmbedding = "[1, 0]"
          and catalog = "[andiroba, copaiba, castanha]"]
        collaborators_simps count_examples filtered)
      (simp add: andiroba_def copaiba_def)
  from count_examples(3)
    results_scored [where question = ?q and env = ?env and questionEmbedding = "[1, 0]"
      and catalog = "[andiroba, copaiba, castanha]" and ex = ?ex]
  obtain results where r: "fst (POST ?env (Some ?q)) = ResultsResponse results"
    and fresh: "\<not> truthyBool (only ?ex) \<longrightarrow>
      (\<forall>r\<in>set results.
         (\<exists>entry\<in>set [andiroba, copaiba, castanha]. item r = score [1, 0] entry) \<and>
         similarity (item r) = Some (cosineSimilarity [1, 0] (embedding (item r))))"
    by (auto simp: collaborators_simps)
  from r response have "results = ?expected" by simp
  with fresh only have "list_all (\<lambda>r. similarity (item r) =
      Some (cosineSimilarity [1, 0] (embedding (item r)))) ?expected"
    by (simp only: list_all_iff) blast
  with count_examples(3) only response show ?thesis by blast
qed

text \<open>
  Claim C2 as stated fails on the exclusivity branch: the result is the loaded entry, which
  has no \<^verbatim>\<open>similarity\<close>.
\<close>

theorem results_scored_counterexample:
  "\<not> isCountQuery ''Show me trees that only the leaves are used.'' \<and>
   truthyBool (only (extractQuery LlmThrows ''Show me trees that only the leaves are used.'')) \<and>
   fst (POST (collaborators LlmThrows [jatoba, urucum])
     (Some ''Show me trees that only the leaves are used.'')) =
     ResultsResponse [\<lparr>item = urucum, images = [''https://img.example/Bixa orellana'']\<rparr>] \<and>
   similarity urucum = None"
proof -
  let ?q = "''Show me trees that only the leaves are used.''"
  let ?ex = "extractQuery LlmThrows ?q"
  have ex: "?ex = \<lparr>query = \<lparr>species = None, ecosystemService = None, partUsed = Some ''leaves''\<rparr>,
      only = Some True, andQ = None, usedLLM = False\<rparr>"
    by (simp add: extractQuery_def parser_eval)
  have filtered: "finalFiltered ?ex [1, 0] [jatoba, urucum] = [urucum]"
    unfolding ex
    by (simp add: finalFiltered_def andLogic_def onlyAgain_def primaryBranch_def truthyBool_def
        onlyCallback_def solePart_def truthy_def jatoba_def urucum_def toLowerCase_def
        isUpper_def)
  have "fst (POST (collaborators LlmThrows [jatoba, urucum]) (Some ?q)) =
      ResultsResponse [\<lparr>item = urucum, images = [''https://img.example/Bixa orellana'']\<rparr>]"
    by (simp add: POST_success [where questionEmbedding = "[1, 0]"
          and catalog = "[jatoba, urucum]"]
        collaborators_simps count_examples filtered)
      (simp add: urucum_def)
  moreover have "truthyBool (only ?ex)" by (simp add: ex truthyBool_def)
  moreover have "similarity urucum = None" by (simp add: urucum_def)
  ultimately show ?thesis using count_examples(4) by blast
qed


section \<open>The unguarded division\<close>




end
